theory Spec2Isabelle
  imports Main "HOL-Library.Word"
begin

section \<open>Values shared by the feature modules\<close>

text \<open>
  The feature modules of the wizard are TypeScript functions that mutate a
  \<^verbatim>\<open>ContractBuilder\<close>. Mutation is written as state passing: a function takes the
  builder and returns the builder after the call. A \<^verbatim>\<open>throw\<close> is the left summand
  of the result.

  Strings are lists of characters with codes below 256.
\<close>

text \<open>
  The \<^verbatim>\<open>access\<close> argument as it arrives at run time. The TypeScript type
  \<^verbatim>\<open>Access\<close> is a union of \<^verbatim>\<open>false\<close> and string literals; it is erased at run
  time, so the model keeps every boolean and every string.
\<close>

datatype access = ABool bool | AStr string

text \<open>JavaScript truthiness, as used by \<^verbatim>\<open>if (access)\<close> and \<^verbatim>\<open>roleOwner && ...\<close>.\<close>

fun truthy :: "access \<Rightarrow> bool" where
  "truthy (ABool b) = b"
| "truthy (AStr s) = (s \<noteq> [])"

text \<open>
  Modelled from the spec: the kinds of symbols of the Symbol Registry (imports,
  constants, events, errors), the payload registered under a key (the source locator
  and import-only flag of an ImportEntry, the doc lines of a NamedConstant), and the
  owner of a constructor argument (a contributing parent or the contract itself).
\<close>

datatype symbol_kind = ImportSymbol | ConstantSymbol | EventSymbol | ErrorSymbol

datatype payload = ImportPayload string bool | DefinitionPayload "string list"

datatype owner = Own | ParentOwner string

text \<open>
  The errors of a build. \<^verbatim>\<open>JsError\<close> is a \<^verbatim>\<open>throw new Error(message)\<close> of the source;
  the other kinds are modelled from the spec (section 7): SymbolConflict names the key
  and both payloads, DuplicateBodyError the function, ArgumentNameCollision the
  argument and both owners.
\<close>

datatype error =
    JsError string
  | SymbolConflict string payload payload
  | DuplicateBodyError string
  | ArgumentNameCollision string owner owner

definition bind :: "error + 'a \<Rightarrow> ('a \<Rightarrow> error + 'b) \<Rightarrow> error + 'b" where
  "bind m f = (case m of Inl e \<Rightarrow> Inl e | Inr x \<Rightarrow> f x)"

section \<open>Stylus: set-access-control.ts\<close>

definition accessOptions_stylus :: "access list" where
  "accessOptions_stylus = [ABool False, AStr ''ownable'', AStr ''roles'']"

definition DEFAULT_ACCESS_CONTROL :: access where
  "DEFAULT_ACCESS_CONTROL = AStr ''ownable''"

text \<open>
  \<^verbatim>\<open>setAccessControl(_c, access)\<close> of the Stylus package. Every statement that
  touched the builder is commented out in the source, so the three declared cases
  only \<^verbatim>\<open>break\<close>; the default case throws. The result is the builder after the
  call.
\<close>

definition setAccessControl_stylus :: "'c \<Rightarrow> access \<Rightarrow> error + 'c" where
  "setAccessControl_stylus c access =
     (if access = ABool False then Inr c
      else if access = AStr ''ownable'' then Inr c
      else if access = AStr ''roles'' then Inr c
      else Inl (JsError ''Unknown value for `access`''))"

text \<open>
  \<^verbatim>\<open>requireAccessControl(c, _trait, _fn, access, _roleIdPrefix, _roleOwner)\<close> of the
  Stylus package. The builder, the trait and the function are the three mutable
  objects it receives; the result holds all three after the call.
\<close>

definition requireAccessControl_stylus ::
  "'c \<Rightarrow> 't \<Rightarrow> 'f \<Rightarrow> access \<Rightarrow> string \<Rightarrow> string option \<Rightarrow> error + ('c \<times> 't \<times> 'f)" where
  "requireAccessControl_stylus c trait fn access0 roleIdPrefix roleOwner =
     (let access = (if access0 = ABool False then DEFAULT_ACCESS_CONTROL else access0) in
      bind (setAccessControl_stylus c access) (\<lambda>c1.
        if access = AStr ''ownable'' then Inr (c1, trait, fn)
        else if access = AStr ''roles'' then Inr (c1, trait, fn)
        else Inl (JsError ''Unknown value for `access`'')))"

section \<open>The contract builder\<close>

text \<open>
  Modelled from the spec: the class \<^verbatim>\<open>ContractBuilder\<close> (\<^verbatim>\<open>./contract\<close>) is imported by
  the feature modules as a type only and its file is not part of the sources. The
  record and the operations of this section follow the specification's data model
  (ContractModel, ParentReference, FunctionEntry, ConstructorModel, NamedConstant,
  StorageLayoutEntry, ImportEntry) and component contracts (Symbol Registry,
  Parent/Trait Set, Function Table, Constructor Assembler, Storage Layout Resolver).
  The model covers a build session before emission (the state Building).
\<close>

record import_contract =
  contract_name :: string
  contract_path :: string

datatype param_value = Lit string | NamedRef string

record parent_reference =
  parent_contract :: import_contract
  parent_params :: "param_value list"

record function_argument =
  arg_type :: string
  arg_name :: string

record function_docs =
  notice :: string
  details :: "string option"
  param_docs :: "(string \<times> string) list"
  return_docs :: "(string \<times> string) list"

record base_function =
  fn_name :: string
  fn_kind :: string
  fn_args :: "function_argument list"
  fn_returns :: "string list option"
  fn_mutability :: "string option"
  fn_code :: "string list option"
  fn_docs :: function_docs

record function_entry =
  entry_fn :: base_function
  entry_body :: "string list"
  entry_modifiers :: "string list"
  entry_override :: "string list"

type_synonym registry = "((symbol_kind \<times> string) \<times> payload) list"

record storage_layout_entry =
  layout_contract :: string
  layout_label :: string
  layout_fields :: "string list"

record contract_builder =
  name :: string
  upgradeable :: bool
  parents :: "parent_reference list"
  functionTable :: "function_entry list"
  constructorArgs :: "(function_argument \<times> owner) list"
  constructorCode :: "string list"
  symbols :: registry
  variables :: "string list"
  storageLayout :: "storage_layout_entry list"

definition newBuilder :: "string \<Rightarrow> bool \<Rightarrow> contract_builder" where
  "newBuilder n u =
     \<lparr>name = n, upgradeable = u, parents = [], functionTable = [], constructorArgs = [],
      constructorCode = [], symbols = [], variables = [], storageLayout = []\<rparr>"

subsection \<open>Symbol Registry\<close>

text \<open>
  Modelled from the spec: \<^verbatim>\<open>register(kind, key, payload) -> {added: bool}\<close>. A key that
  is registered with the identical payload gives \<^verbatim>\<open>added = false\<close> and no error; a key
  registered with a different payload fails with SymbolConflict, naming the key and
  both payloads. Entries are kept in insertion order.
\<close>

definition register ::
  "symbol_kind \<Rightarrow> string \<Rightarrow> payload \<Rightarrow> registry \<Rightarrow> error + (bool \<times> registry)" where
  "register k key p r =
     (case map_of r (k, key) of
        None \<Rightarrow> Inr (True, r @ [((k, key), p)])
      | Some q \<Rightarrow> if q = p then Inr (False, r) else Inl (SymbolConflict key q p))"

text \<open>
  Modelled from the spec: \<^verbatim>\<open>addImportOnly\<close> registers an ImportEntry (identifier, source
  locator, import-only flag) under its identifier.
\<close>

definition addImportOnly :: "import_contract \<Rightarrow> contract_builder \<Rightarrow> error + (bool \<times> contract_builder)" where
  "addImportOnly contract c =
     bind (register ImportSymbol (contract_name contract) (ImportPayload (contract_path contract) True) (symbols c))
       (\<lambda>(added, r). Inr (added, c\<lparr>symbols := r\<rparr>))"

text \<open>
  Modelled from the spec: \<^verbatim>\<open>addConstantOrImmutableOrErrorDefinition(code, comments)\<close>
  registers a NamedConstant whose uniqueness key is the full declaration text and
  whose payload is its doc lines (none when the argument is left out). The method
  receives no kind: its entries are all registered under one kind.
\<close>

definition addConstantOrImmutableOrErrorDefinition ::
  "string \<Rightarrow> string list \<Rightarrow> contract_builder \<Rightarrow> error + (bool \<times> contract_builder)" where
  "addConstantOrImmutableOrErrorDefinition code comments c =
     bind (register ConstantSymbol code (DefinitionPayload comments) (symbols c))
       (\<lambda>(added, r). Inr (added, c\<lparr>symbols := r\<rparr>))"

subsection \<open>Parent/Trait Set\<close>

text \<open>
  Modelled from the spec: the uniqueness key of a ParentReference is its identifier;
  \<open>hasParent\<close> tells whether an identifier is among the parents.
\<close>

definition hasParent :: "string \<Rightarrow> contract_builder \<Rightarrow> bool" where
  "hasParent n c = (n \<in> set (map (\<lambda>p. contract_name (parent_contract p)) (parents c)))"

text \<open>
  Modelled from the spec: \<^verbatim>\<open>addParent(ref) -> bool\<close> returns whether the parent was
  newly added; adding an identifier that is present is a no-op. Parents are kept in
  first-added order.
\<close>

definition addParent ::
  "import_contract \<Rightarrow> param_value list \<Rightarrow> contract_builder \<Rightarrow> bool \<times> contract_builder" where
  "addParent contract params c =
     (if hasParent (contract_name contract) c then (False, c)
      else (True, c\<lparr>parents := parents c @ [\<lparr>parent_contract = contract, parent_params = params\<rparr>]\<rparr>))"

subsection \<open>Function Table\<close>

text \<open>
  Modelled from the spec: the uniqueness key of a FunctionEntry is the name with the
  argument types. A new entry takes the descriptor's code lines as its body (empty
  for a descriptor without code) and has no modifiers and no override targets.
  \<open>findEntry\<close> returns the first entry of an identity and \<open>updateEntry\<close> changes it
  in place.
\<close>

definition fn_identity :: "base_function \<Rightarrow> string \<times> string list" where
  "fn_identity f = (fn_name f, map arg_type (fn_args f))"

definition newEntry :: "base_function \<Rightarrow> function_entry" where
  "newEntry f =
     \<lparr>entry_fn = f,
      entry_body = (case fn_code f of None \<Rightarrow> [] | Some ls \<Rightarrow> ls),
      entry_modifiers = [],
      entry_override = []\<rparr>"

fun findEntry :: "string \<times> string list \<Rightarrow> function_entry list \<Rightarrow> function_entry option" where
  "findEntry k [] = None"
| "findEntry k (e # es) = (if fn_identity (entry_fn e) = k then Some e else findEntry k es)"

fun updateEntry ::
  "string \<times> string list \<Rightarrow> (function_entry \<Rightarrow> function_entry) \<Rightarrow> function_entry list \<Rightarrow> function_entry list" where
  "updateEntry k g [] = []"
| "updateEntry k g (e # es) =
     (if fn_identity (entry_fn e) = k then g e # es else e # updateEntry k g es)"

text \<open>
  Modelled from the spec: \<^verbatim>\<open>addFunction(def)\<close>. A function with the same identity
  (name and argument types) is kept as it is; otherwise a new entry is appended.
\<close>

definition addFunction :: "base_function \<Rightarrow> contract_builder \<Rightarrow> contract_builder" where
  "addFunction baseFn c =
     (case findEntry (fn_identity baseFn) (functionTable c) of
        Some e \<Rightarrow> c
      | None \<Rightarrow> c\<lparr>functionTable := functionTable c @ [newEntry baseFn]\<rparr>)"

text \<open>
  Modelled from the spec: \<^verbatim>\<open>addModifier(entry, modifierText)\<close> appends the modifier if
  it is not present yet, keeping first-seen order.
\<close>

definition addModifier :: "string \<Rightarrow> base_function \<Rightarrow> contract_builder \<Rightarrow> contract_builder" where
  "addModifier modifier baseFn c =
     (let c1 = addFunction baseFn c in
      c1\<lparr>functionTable :=
           updateEntry (fn_identity baseFn)
             (\<lambda>e. if modifier \<in> set (entry_modifiers e) then e
                  else e\<lparr>entry_modifiers := entry_modifiers e @ [modifier]\<rparr>)
             (functionTable c1)\<rparr>)"

text \<open>
  Modelled from the spec: \<^verbatim>\<open>addOverride(parentRef, function)\<close> adds the parent's
  identifier to the function's override-target set.
\<close>

definition addOverride :: "import_contract \<Rightarrow> base_function \<Rightarrow> contract_builder \<Rightarrow> contract_builder" where
  "addOverride parent baseFn c =
     (let c1 = addFunction baseFn c in
      c1\<lparr>functionTable :=
           updateEntry (fn_identity baseFn)
             (\<lambda>e. if contract_name parent \<in> set (entry_override e) then e
                  else e\<lparr>entry_override := entry_override e @ [contract_name parent]\<rparr>)
             (functionTable c1)\<rparr>)"

text \<open>
  Modelled from the spec: \<^verbatim>\<open>addFunctionCode(code, fn)\<close> is \<^verbatim>\<open>addFunction\<close> followed by
  \<^verbatim>\<open>setBody(entry, text)\<close>, which fails with DuplicateBodyError when the body is
  not empty.
\<close>

definition addFunctionCode :: "string \<Rightarrow> base_function \<Rightarrow> contract_builder \<Rightarrow> error + contract_builder" where
  "addFunctionCode code baseFn c =
     (let c1 = addFunction baseFn c in
      case findEntry (fn_identity baseFn) (functionTable c1) of
        None \<Rightarrow> Inr c1
      | Some e \<Rightarrow>
          if entry_body e \<noteq> [] then Inl (DuplicateBodyError (fn_name baseFn))
          else Inr (c1\<lparr>functionTable :=
                 updateEntry (fn_identity baseFn) (\<lambda>e. e\<lparr>entry_body := [code]\<rparr>) (functionTable c1)\<rparr>))"

subsection \<open>Constructor Assembler\<close>

text \<open>
  Modelled from the spec: the ConstructorModel keeps the arguments in order, each
  tagged with its owner; \<open>findArgument\<close> returns the first argument of a name.
\<close>

fun findArgument :: "string \<Rightarrow> (function_argument \<times> owner) list \<Rightarrow> (function_argument \<times> owner) option" where
  "findArgument n [] = None"
| "findArgument n (ao # rest) = (if arg_name (fst ao) = n then Some ao else findArgument n rest)"

text \<open>
  Modelled from the spec: \<^verbatim>\<open>addArgument(arg, owner)\<close> fails with ArgumentNameCollision
  when the name is present from a different owner and is a no-op when the identical
  argument was added by the same owner. The spec leaves open a same-named argument
  of another type from the same owner; the model reports it as a collision too, so
  that argument names stay unique.
\<close>

definition addArgument :: "function_argument \<Rightarrow> owner \<Rightarrow> contract_builder \<Rightarrow> error + contract_builder" where
  "addArgument arg ow c =
     (case findArgument (arg_name arg) (constructorArgs c) of
        None \<Rightarrow> Inr (c\<lparr>constructorArgs := constructorArgs c @ [(arg, ow)]\<rparr>)
      | Some ao \<Rightarrow>
          if snd ao = ow \<and> fst ao = arg then Inr c
          else Inl (ArgumentNameCollision (arg_name arg) (snd ao) ow))"

text \<open>
  Modelled from the spec: \<^verbatim>\<open>addConstructorArgument(arg)\<close> names no owner; the argument
  is the contract's own.
\<close>

definition addConstructorArgument :: "function_argument \<Rightarrow> contract_builder \<Rightarrow> error + contract_builder" where
  "addConstructorArgument arg c = addArgument arg Own c"

text \<open>
  Modelled from the spec: \<^verbatim>\<open>addCode(stmt)\<close> appends a statement to the constructor body
  in call order.
\<close>

definition addConstructorCode :: "string \<Rightarrow> contract_builder \<Rightarrow> contract_builder" where
  "addConstructorCode code c = c\<lparr>constructorCode := constructorCode c @ [code]\<rparr>"

subsection \<open>Storage Layout Resolver\<close>

text \<open>
  Modelled from the spec: fields are added to a record in addition order and
  deduplicated by field text (\<open>addFields\<close>); \<open>mergeLayout\<close> adds them to the record
  of the label, or appends a new record for the contract when the label has none.
\<close>

fun addFields :: "string list \<Rightarrow> string list \<Rightarrow> string list" where
  "addFields fs [] = fs"
| "addFields fs (f # rest) = addFields (if f \<in> set fs then fs else fs @ [f]) rest"

fun mergeLayout :: "string \<Rightarrow> string \<Rightarrow> string list \<Rightarrow> storage_layout_entry list \<Rightarrow> storage_layout_entry list" where
  "mergeLayout cn label fs [] =
     [\<lparr>layout_contract = cn, layout_label = label, layout_fields = addFields [] fs\<rparr>]"
| "mergeLayout cn label fs (e # es) =
     (if layout_label e = label then e\<lparr>layout_fields := addFields (layout_fields e) fs\<rparr> # es
      else e # mergeLayout cn label fs es)"

text \<open>
  Modelled from the spec: \<^verbatim>\<open>setNamespacedStorage(c, structVariables, namespaceLabel)\<close>
  (\<^verbatim>\<open>./set-namespaced-storage\<close>, not part of the sources) routes the variables into the
  StorageLayoutEntry of the namespace label: all variables sharing a label are merged
  into one record in addition order, deduplicated by field text.
\<close>

definition setNamespacedStorage :: "contract_builder \<Rightarrow> string list \<Rightarrow> string \<Rightarrow> contract_builder" where
  "setNamespacedStorage c structVariables label =
     c\<lparr>storageLayout := mergeLayout (name c) label structVariables (storageLayout c)\<rparr>"

text \<open>
  Modelled from the spec: \<^verbatim>\<open>addStateVariable(declaration, flag)\<close>. A non-upgradeable
  build places the variable as a direct declaration, in addition order and once; an
  upgradeable build routes it into the record of the default label. The spec gives
  the second argument no meaning; the model ignores it.
\<close>

definition addStateVariable :: "string \<Rightarrow> bool \<Rightarrow> contract_builder \<Rightarrow> contract_builder" where
  "addStateVariable declaration flag c =
     (if upgradeable c then setNamespacedStorage c [declaration] ''openzeppelin.storage''
      else if declaration \<in> set (variables c) then c
      else c\<lparr>variables := variables c @ [declaration]\<rparr>)"

text \<open>
  Modelled from the spec: \<^verbatim>\<open>addVariable(text)\<close> is the freeform path: the text block is
  appended to the declarations as it is, without going through the Symbol Registry.
\<close>

definition addVariable :: "string \<Rightarrow> contract_builder \<Rightarrow> contract_builder" where
  "addVariable code c = c\<lparr>variables := variables c @ [code]\<rparr>"

subsection \<open>Emitter\<close>

text \<open>
  Modelled from the spec: the Emitter emits the constructor's body statements in
  append order. Only the sequence of body statements is modelled, not the text
  around it.
\<close>

definition emitConstructorBody :: "contract_builder \<Rightarrow> string list" where
  "emitConstructorBody c = constructorCode c"

section \<open>Solidity: set-access-control.ts\<close>

definition accessOptions :: "access list" where
  "accessOptions = [ABool False, AStr ''ownable'', AStr ''roles'', AStr ''managed'']"

definition parents_Ownable :: import_contract where
  "parents_Ownable =
     \<lparr>contract_name = ''Ownable'', contract_path = ''@openzeppelin/contracts/access/Ownable.sol''\<rparr>"

definition parents_AccessControl :: import_contract where
  "parents_AccessControl =
     \<lparr>contract_name = ''AccessControl'',
      contract_path = ''@openzeppelin/contracts/access/AccessControl.sol''\<rparr>"

definition parents_AccessManaged :: import_contract where
  "parents_AccessManaged =
     \<lparr>contract_name = ''AccessManaged'',
      contract_path = ''@openzeppelin/contracts/access/manager/AccessManaged.sol''\<rparr>"

text \<open>
  \<^verbatim>\<open>setAccessControl(c, access)\<close>. The descriptor \<^verbatim>\<open>supportsInterface\<close> comes from
  \<^verbatim>\<open>./common-functions\<close>, which is not part of the sources; it is a parameter. The
  \<^verbatim>\<open>switch\<close> has no default case: any other value falls through and nothing is
  called.
\<close>

definition setAccessControl :: "base_function \<Rightarrow> contract_builder \<Rightarrow> access \<Rightarrow> error + contract_builder" where
  "setAccessControl supportsInterface c access =
     (if access = AStr ''ownable'' then
        (case addParent parents_Ownable [Lit ''initialOwner''] c of
           (True, c1) \<Rightarrow>
             bind (addConstructorArgument \<lparr>arg_type = ''address'', arg_name = ''initialOwner''\<rparr> c1) (\<lambda>c2.
               Inr (addConstructorCode
                 ''require(initialOwner != address(0), \"Ownable: initial owner is zero address\");'' c2))
         | (False, c1) \<Rightarrow> Inr c1)
      else if access = AStr ''roles'' then
        bind
          (case addParent parents_AccessControl [] c of
             (True, c1) \<Rightarrow>
               bind (addConstructorArgument \<lparr>arg_type = ''address'', arg_name = ''defaultAdmin''\<rparr> c1) (\<lambda>c2.
                 Inr (addConstructorCode ''_grantRole(DEFAULT_ADMIN_ROLE, defaultAdmin);''
                   (addConstructorCode
                     ''require(defaultAdmin != address(0), \"AccessControl: default admin is zero address\");''
                     c2)))
           | (False, c1) \<Rightarrow> Inr c1)
          (\<lambda>c3. Inr (addOverride parents_AccessControl supportsInterface c3))
      else if access = AStr ''managed'' then
        (case addParent parents_AccessManaged [Lit ''initialAuthority''] c of
           (True, c1) \<Rightarrow>
             bind (addConstructorArgument \<lparr>arg_type = ''address'', arg_name = ''initialAuthority''\<rparr> c1) (\<lambda>c2.
               Inr (addConstructorCode
                 ''require(initialAuthority != address(0), \"AccessManaged: initial authority is zero address\");''
                 c2))
         | (False, c1) \<Rightarrow> Inr c1)
      else Inr c)"

text \<open>
  \<^verbatim>\<open>requireAccessControl(c, fn, access, roleIdPrefix, roleOwner)\<close>. An argument that
  is left out is \<^verbatim>\<open>undefined\<close>, here \<^const>\<open>None\<close>; \<^verbatim>\<open>roleOwner && addedConstant\<close>
  holds for a non-empty string and a newly added constant.
\<close>

definition requireAccessControl ::
  "base_function \<Rightarrow> contract_builder \<Rightarrow> base_function \<Rightarrow> access \<Rightarrow> string \<Rightarrow> string option
     \<Rightarrow> error + contract_builder" where
  "requireAccessControl supportsInterface c fn access0 roleIdPrefix roleOwner =
     (let access = (if access0 = ABool False then AStr ''ownable'' else access0) in
      bind (setAccessControl supportsInterface c access) (\<lambda>c1.
        if access = AStr ''ownable'' then Inr (addModifier ''onlyOwner'' fn c1)
        else if access = AStr ''roles'' then
          (let roleId = roleIdPrefix @ ''_ROLE'' in
           bind (addConstantOrImmutableOrErrorDefinition
                   (''bytes32 public constant '' @ roleId @ '' = keccak256(\"'' @ roleId @ ''\");'') [] c1)
             (\<lambda>(addedConstant, c2).
               bind
                 (case roleOwner of
                    Some ro \<Rightarrow>
                      if ro \<noteq> [] \<and> addedConstant then
                        bind (addConstructorArgument \<lparr>arg_type = ''address'', arg_name = ro\<rparr> c2) (\<lambda>c3.
                          Inr (addConstructorCode (''_grantRole('' @ roleId @ '', '' @ ro @ '');'')
                            (addConstructorCode
                              (''require('' @ ro @ '' != address(0), \"AccessControl: role owner is zero address\");'')
                              c3)))
                      else Inr c2
                  | None \<Rightarrow> Inr c2)
                 (\<lambda>c4. Inr (addModifier (''onlyRole('' @ roleId @ '')'') fn c4))))
        else if access = AStr ''managed'' then Inr (addModifier ''restricted'' fn c1)
        else Inr c1))"

section \<open>Solidity: add-address-verification.ts\<close>

text \<open>String operations of JavaScript used by the feature.\<close>

abbreviation newline :: char where
  "newline \<equiv> CHR 0x0A"

definition isWhiteSpace :: "char \<Rightarrow> bool" where
  "isWhiteSpace ch = (ch \<in> set [CHR 0x09, CHR 0x0A, CHR 0x0B, CHR 0x0C, CHR 0x0D, CHR 0x20, CHR 0xA0])"

definition trimEnd :: "string \<Rightarrow> string" where
  "trimEnd s = rev (dropWhile isWhiteSpace (rev s))"

fun join :: "string \<Rightarrow> string list \<Rightarrow> string" where
  "join sep [] = []"
| "join sep [x] = x"
| "join sep (x # y # rest) = x @ sep @ join sep (y # rest)"

text \<open>
  The source holds two versions of the feature. The first one (structured) routes
  events and errors through \<^verbatim>\<open>addConstantOrImmutableOrErrorDefinition\<close> and the state
  variable through the storage layout; its function descriptors carry no code.
  \<^verbatim>\<open>defineFunctions\<close> (\<^verbatim>\<open>./utils/define-functions\<close>, not part of the sources) is taken
  to give every descriptor its key as name.
\<close>

definition functions_isAddressVerified :: base_function where
  "functions_isAddressVerified =
     \<lparr>fn_name = ''isAddressVerified'',
      fn_kind = ''public'',
      fn_args = [\<lparr>arg_type = ''address'', arg_name = ''account''\<rparr>],
      fn_returns = Some [''bool''],
      fn_mutability = Some ''view'',
      fn_code = None,
      fn_docs =
        \<lparr>notice = ''Check if an address has been verified'',
         details = None,
         param_docs = [(''account'', ''The address to check'')],
         return_docs = [(''_0'', ''True if the address is verified, false otherwise'')]\<rparr>\<rparr>"

definition functions_verifyAddressOwnership :: base_function where
  "functions_verifyAddressOwnership =
     \<lparr>fn_name = ''verifyAddressOwnership'',
      fn_kind = ''public'',
      fn_args = [\<lparr>arg_type = ''bytes32'', arg_name = ''message''\<rparr>,
                 \<lparr>arg_type = ''bytes'', arg_name = ''signature''\<rparr>],
      fn_returns = None,
      fn_mutability = None,
      fn_code = None,
      fn_docs =
        \<lparr>notice = ''Verify address ownership by providing a signature'',
         details = Some (''The caller must provide a signature of a message signed with their private key. '' @
           ''The signature is verified to ensure the caller controls the private key associated with their address. '' @
           ''This allows verification of address ownership without exposing the private key.''),
         param_docs = [(''message'', ''The original message that was signed''),
                       (''signature'', ''The signature of the message, signed by the caller'')],
         return_docs = []\<rparr>\<rparr>"

definition functions_revokeAddressVerification :: base_function where
  "functions_revokeAddressVerification =
     \<lparr>fn_name = ''revokeAddressVerification'',
      fn_kind = ''public'',
      fn_args = [\<lparr>arg_type = ''address'', arg_name = ''account''\<rparr>],
      fn_returns = None,
      fn_mutability = None,
      fn_code = None,
      fn_docs =
        \<lparr>notice = ''Revoke address verification (admin only)'',
         details = None,
         param_docs = [(''account'', ''The address to revoke verification for'')],
         return_docs = []\<rparr>\<rparr>"

text \<open>
  \<^verbatim>\<open>toStorageStructInstantiation\<close> comes from \<^verbatim>\<open>./set-namespaced-storage\<close>, which is
  not part of the sources: the accessor statement it returns for a contract name is
  a parameter of the functions that use it.
\<close>

definition addIsAddressVerifiedFunction ::
  "(string \<Rightarrow> string) \<Rightarrow> contract_builder \<Rightarrow> error + contract_builder" where
  "addIsAddressVerifiedFunction toStorageStructInstantiation c =
     (let storageAccess = (if upgradeable c then toStorageStructInstantiation (name c) @ [newline] else []);
          verifiedAddressesAccess =
            (if upgradeable c then ''$._verifiedAddresses[account]'' else ''_verifiedAddresses[account]'')
      in addFunctionCode (storageAccess @ ''return '' @ verifiedAddressesAccess @ '';'')
           functions_isAddressVerified c)"

definition addVerifyAddressOwnershipFunction ::
  "(string \<Rightarrow> string) \<Rightarrow> contract_builder \<Rightarrow> error + contract_builder" where
  "addVerifyAddressOwnershipFunction toStorageStructInstantiation c =
     (let storageAccess = (if upgradeable c then toStorageStructInstantiation (name c) @ [newline] else []);
          verifiedAddressesRef = (if upgradeable c then ''$._verifiedAddresses'' else ''_verifiedAddresses'')
      in addFunctionCode
           (join [newline] (filter (\<lambda>line. line \<noteq> [])
              [trimEnd storageAccess,
               ''// Hash the message according to EIP-191'',
               ''bytes32 ethSignedMessageHash = MessageHashUtils.toEthSignedMessageHash(message);'',
               [],
               ''// Recover the signer address from the signature'',
               ''address recoveredAddress = ECDSA.recover(ethSignedMessageHash, signature);'',
               [],
               ''// Check if the recovered address matches the sender'',
               ''if (recoveredAddress != msg.sender) {'',
               ''    revert InvalidSignature();'',
               ''}'',
               [],
               ''// Check if already verified'',
               ''if ('' @ verifiedAddressesRef @ ''[msg.sender]) {'',
               ''    revert AlreadyVerified();'',
               ''}'',
               [],
               ''// Mark the address as verified'',
               verifiedAddressesRef @ ''[msg.sender] = true;'',
               [],
               ''// Emit verification event'',
               ''emit AddressVerified(msg.sender);'']))
           functions_verifyAddressOwnership c)"

definition addRevokeAddressVerificationFunction ::
  "(string \<Rightarrow> string) \<Rightarrow> base_function \<Rightarrow> contract_builder \<Rightarrow> access \<Rightarrow> error + contract_builder" where
  "addRevokeAddressVerificationFunction toStorageStructInstantiation supportsInterface c access =
     bind (requireAccessControl supportsInterface c functions_revokeAddressVerification access
             ''DEFAULT_ADMIN_ROLE'' None) (\<lambda>c1.
       let storageAccess = (if upgradeable c1 then toStorageStructInstantiation (name c1) @ [newline] else []);
           verifiedAddressesRef = (if upgradeable c1 then ''$._verifiedAddresses'' else ''_verifiedAddresses'')
       in addFunctionCode
            (join [newline] (filter (\<lambda>line. line \<noteq> [])
               [trimEnd storageAccess,
                ''// Revoke verification'',
                verifiedAddressesRef @ ''[account] = false;'',
                [],
                ''// Emit revocation event'',
                ''emit VerificationRevoked(account);'']))
            functions_revokeAddressVerification c1)"

definition importECDSA :: import_contract where
  "importECDSA =
     \<lparr>contract_name = ''ECDSA'',
      contract_path = ''@openzeppelin/contracts/utils/cryptography/ECDSA.sol''\<rparr>"

definition importMessageHashUtils :: import_contract where
  "importMessageHashUtils =
     \<lparr>contract_name = ''MessageHashUtils'',
      contract_path = ''@openzeppelin/contracts/utils/cryptography/MessageHashUtils.sol''\<rparr>"

definition addAddressVerification ::
  "(string \<Rightarrow> string) \<Rightarrow> base_function \<Rightarrow> contract_builder \<Rightarrow> access \<Rightarrow> error + contract_builder" where
  "addAddressVerification toStorageStructInstantiation supportsInterface c access =
     bind (addImportOnly importECDSA c) (\<lambda>(a1, c1).
     bind (addImportOnly importMessageHashUtils c1) (\<lambda>(a2, c2).
     bind (addConstantOrImmutableOrErrorDefinition ''event AddressVerified(address indexed account);''
             [''/// @dev Emitted when an address is verified''] c2) (\<lambda>(a3, c3).
     bind (addConstantOrImmutableOrErrorDefinition ''event VerificationRevoked(address indexed account);''
             [''/// @dev Emitted when address verification is revoked''] c3) (\<lambda>(a4, c4).
     bind (addConstantOrImmutableOrErrorDefinition ''error InvalidSignature();''
             [''/// @dev Error thrown when signature verification fails''] c4) (\<lambda>(a5, c5).
     bind (addConstantOrImmutableOrErrorDefinition ''error AlreadyVerified();''
             [''/// @dev Error thrown when address is already verified''] c5) (\<lambda>(a6, c6).
     bind (addIsAddressVerifiedFunction toStorageStructInstantiation
             (if upgradeable c6 then
                setNamespacedStorage c6 [''mapping(address account => bool verified) _verifiedAddresses'']
                  ''openzeppelin.storage''
              else addStateVariable ''mapping(address => bool) private _verifiedAddresses;'' False c6)) (\<lambda>c8.
     bind (addVerifyAddressOwnershipFunction toStorageStructInstantiation c8) (\<lambda>c9.
     if truthy access then
       addRevokeAddressVerificationFunction toStorageStructInstantiation supportsInterface c9 access
     else Inr c9))))))))"

text \<open>
  The second version (freeform) emits the mapping, the events and the errors as text
  blocks through \<^verbatim>\<open>addVariable\<close>; its function descriptors carry their code.
\<close>

definition freeform_isAddressVerified :: base_function where
  "freeform_isAddressVerified =
     \<lparr>fn_name = ''isAddressVerified'',
      fn_kind = ''public'',
      fn_args = [\<lparr>arg_type = ''address'', arg_name = ''account''\<rparr>],
      fn_returns = Some [''bool''],
      fn_mutability = None,
      fn_code = Some [''return _verifiedAddresses[account];''],
      fn_docs =
        \<lparr>notice = ''Check if an address has been verified'',
         details = None,
         param_docs = [(''account'', ''The address to check'')],
         return_docs = [(''_0'', ''True if the address is verified, false otherwise'')]\<rparr>\<rparr>"

definition freeform_verifyAddressOwnership :: base_function where
  "freeform_verifyAddressOwnership =
     \<lparr>fn_name = ''verifyAddressOwnership'',
      fn_kind = ''public'',
      fn_args = [\<lparr>arg_type = ''bytes32'', arg_name = ''message''\<rparr>,
                 \<lparr>arg_type = ''bytes'', arg_name = ''signature''\<rparr>],
      fn_returns = None,
      fn_mutability = None,
      fn_code = Some
        [''// Hash the message according to EIP-191'',
         ''bytes32 ethSignedMessageHash = MessageHashUtils.toEthSignedMessageHash(message);'',
         [],
         ''// Recover the signer address from the signature'',
         ''address recoveredAddress = ECDSA.recover(ethSignedMessageHash, signature);'',
         [],
         ''// Check if the recovered address matches the sender'',
         ''if (recoveredAddress != msg.sender) {'',
         ''    revert InvalidSignature();'',
         ''}'',
         [],
         ''// Check if already verified'',
         ''if (_verifiedAddresses[msg.sender]) {'',
         ''    revert AlreadyVerified();'',
         ''}'',
         [],
         ''// Mark the address as verified'',
         ''_verifiedAddresses[msg.sender] = true;'',
         [],
         ''// Emit verification event'',
         ''emit AddressVerified(msg.sender);''],
      fn_docs =
        \<lparr>notice = ''Verify address ownership by providing a signature'',
         details = Some (''The caller must provide a signature of a message signed with their private key. '' @
           ''The signature is verified to ensure the caller controls the private key associated with their address. '' @
           ''This allows verification of address ownership without exposing the private key.''),
         param_docs = [(''message'', ''The original message that was signed''),
                       (''signature'', ''The signature of the message, signed by the caller'')],
         return_docs = []\<rparr>\<rparr>"

definition freeform_revokeAddressVerification :: base_function where
  "freeform_revokeAddressVerification =
     \<lparr>fn_name = ''revokeAddressVerification'',
      fn_kind = ''public'',
      fn_args = [\<lparr>arg_type = ''address'', arg_name = ''account''\<rparr>],
      fn_returns = None,
      fn_mutability = None,
      fn_code = Some
        [''// Revoke verification'',
         ''_verifiedAddresses[account] = false;'',
         [],
         ''// Emit revocation event'',
         ''emit VerificationRevoked(account);''],
      fn_docs =
        \<lparr>notice = ''Revoke address verification (admin only)'',
         details = None,
         param_docs = [(''account'', ''The address to revoke verification for'')],
         return_docs = []\<rparr>\<rparr>"

definition addAddressVerification_freeform ::
  "base_function \<Rightarrow> contract_builder \<Rightarrow> access \<Rightarrow> error + contract_builder" where
  "addAddressVerification_freeform supportsInterface c access =
     bind (addImportOnly importECDSA c) (\<lambda>(a1, c1).
     bind (addImportOnly importMessageHashUtils c1) (\<lambda>(a2, c2).
       let c3 = addVariable ([newline] @ ''    // Mapping to track addresses that have been verified'' @
                  [newline] @ ''    mapping(address => bool) private _verifiedAddresses;'' @
                  [newline] @ ''  '') c2;
           c4 = addVariable ([newline] @ ''    // Event emitted when an address is verified'' @
                  [newline] @ ''    event AddressVerified(address indexed account);'' @
                  [newline] @ ''  '') c3;
           c5 = addVariable ([newline] @ ''    // Event emitted when address verification is revoked'' @
                  [newline] @ ''    event VerificationRevoked(address indexed account);'' @
                  [newline] @ ''  '') c4;
           c6 = addVariable ([newline] @ ''    // Error thrown when signature verification fails'' @
                  [newline] @ ''    error InvalidSignature();'' @
                  [newline] @ ''  '') c5;
           c7 = addVariable ([newline] @ ''    // Error thrown when address is already verified'' @
                  [newline] @ ''    error AlreadyVerified();'' @
                  [newline] @ ''  '') c6;
           c8 = addFunction freeform_isAddressVerified c7;
           c9 = addFunction freeform_verifyAddressOwnership c8
       in if truthy access then
            requireAccessControl supportsInterface c9 freeform_revokeAddressVerification access
              ''DEFAULT_ADMIN_ROLE'' None
          else Inr c9))"

section \<open>Values used in the statements\<close>

text \<open>
  A descriptor for the parameter \<open>supportsInterface\<close> and an accessor statement for
  the parameter \<open>toStorageStructInstantiation\<close>, used where a statement is evaluated
  on a concrete input.
\<close>

definition sampleSupportsInterface :: base_function where
  "sampleSupportsInterface =
     \<lparr>fn_name = ''supportsInterface'',
      fn_kind = ''public'',
      fn_args = [\<lparr>arg_type = ''bytes4'', arg_name = ''interfaceId''\<rparr>],
      fn_returns = Some [''bool''],
      fn_mutability = Some ''view'',
      fn_code = None,
      fn_docs = \<lparr>notice = [], details = None, param_docs = [], return_docs = []\<rparr>\<rparr>"

definition sampleStorageStructInstantiation :: "string \<Rightarrow> string" where
  "sampleStorageStructInstantiation contractName =
     contractName @ ''Storage storage $ = _get'' @ contractName @ ''Storage();''"

text \<open>The modifiers of a function in the builder's function table.\<close>

definition modifiersOf :: "base_function \<Rightarrow> contract_builder \<Rightarrow> string list" where
  "modifiersOf fn c =
     (case findEntry (fn_identity fn) (functionTable c) of
        None \<Rightarrow> []
      | Some e \<Rightarrow> entry_modifiers e)"

text \<open>How often a parent and a constructor argument occur in the builder.\<close>

definition parentCount :: "string \<Rightarrow> contract_builder \<Rightarrow> nat" where
  "parentCount n c = length (filter (\<lambda>p. contract_name (parent_contract p) = n) (parents c))"

definition argumentCount :: "string \<Rightarrow> contract_builder \<Rightarrow> nat" where
  "argumentCount n c = length (filter (\<lambda>ao. arg_name (fst ao) = n) (constructorArgs c))"

text \<open>
  The five text blocks that the freeform version passes to \<^verbatim>\<open>addVariable\<close>, in call
  order.
\<close>

definition freeformBlocks :: "string list" where
  "freeformBlocks =
     [[newline] @ ''    // Mapping to track addresses that have been verified'' @
        [newline] @ ''    mapping(address => bool) private _verifiedAddresses;'' @
        [newline] @ ''  '',
      [newline] @ ''    // Event emitted when an address is verified'' @
        [newline] @ ''    event AddressVerified(address indexed account);'' @
        [newline] @ ''  '',
      [newline] @ ''    // Event emitted when address verification is revoked'' @
        [newline] @ ''    event VerificationRevoked(address indexed account);'' @
        [newline] @ ''  '',
      [newline] @ ''    // Error thrown when signature verification fails'' @
        [newline] @ ''    error InvalidSignature();'' @
        [newline] @ ''  '',
      [newline] @ ''    // Error thrown when address is already verified'' @
        [newline] @ ''    error AlreadyVerified();'' @
        [newline] @ ''  '']"

text \<open>
  A builder in which another feature has registered the event \<^verbatim>\<open>AddressVerified\<close>
  with doc lines of its own.
\<close>

definition conflictingBuilder :: contract_builder where
  "conflictingBuilder =
     (newBuilder ''MyContract'' False)
       \<lparr>symbols :=
          [((ConstantSymbol, ''event AddressVerified(address indexed account);''),
            DefinitionPayload [''/// @dev Emitted once per verified account''])]\<rparr>"

section \<open>Basic facts\<close>

lemma bind_Inr [simp]: "bind (Inr x) f = f x"
  by (simp add: bind_def)

lemma bind_Inl [simp]: "bind (Inl e) f = Inl e"
  by (simp add: bind_def)

lemma bind_eq_Inr: "bind m f = Inr y \<longleftrightarrow> (\<exists>x. m = Inr x \<and> f x = Inr y)"
  by (cases m) simp_all

subsection \<open>Function table\<close>

lemma findEntry_append:
  "findEntry k (es @ [e]) =
     (case findEntry k es of Some x \<Rightarrow> Some x
      | None \<Rightarrow> if fn_identity (entry_fn e) = k then Some e else None)"
  by (induction es) auto

lemma findEntry_updateEntry:
  assumes "\<And>e. entry_fn (g e) = entry_fn e"
  shows "findEntry k (updateEntry k' g es) =
           (if k = k' then map_option g (findEntry k es) else findEntry k es)"
  using assms by (induction es) auto

lemma updateEntry_idem:
  assumes "\<And>e. entry_fn (g e) = entry_fn e" and "\<And>e. g (g e) = g e"
  shows "updateEntry k g (updateEntry k g es) = updateEntry k g es"
  using assms by (induction es) auto

lemma updateEntry_none:
  "findEntry k es = None \<Longrightarrow> updateEntry k g es = es"
  by (induction es) (auto split: if_splits)

lemma entry_fn_newEntry [simp]: "entry_fn (newEntry f) = f"
  by (simp add: newEntry_def)

lemma addFunction_idem: "addFunction f (addFunction f c) = addFunction f c"
  by (auto simp: addFunction_def findEntry_append split: option.splits)

lemma addFunction_fields [simp]:
  "parents (addFunction f c) = parents c"
  "constructorArgs (addFunction f c) = constructorArgs c"
  "constructorCode (addFunction f c) = constructorCode c"
  "symbols (addFunction f c) = symbols c"
  "variables (addFunction f c) = variables c"
  "storageLayout (addFunction f c) = storageLayout c"
  "name (addFunction f c) = name c"
  "upgradeable (addFunction f c) = upgradeable c"
  by (auto simp: addFunction_def split: option.splits)

lemma findEntry_addFunction:
  "findEntry k (functionTable (addFunction f c)) =
     (case findEntry k (functionTable c) of Some x \<Rightarrow> Some x
      | None \<Rightarrow> if fn_identity f = k then Some (newEntry f) else None)"
  by (auto simp: addFunction_def findEntry_append split: option.splits)

lemma addOverride_idem: "addOverride p f (addOverride p f c) = addOverride p f c"
proof -
  let ?g = "\<lambda>e. if contract_name p \<in> set (entry_override e) then e
                 else e\<lparr>entry_override := entry_override e @ [contract_name p]\<rparr>"
  have g1: "\<And>e. entry_fn (?g e) = entry_fn e" by simp
  have g2: "\<And>e. ?g (?g e) = ?g e" by simp
  let ?c1 = "addFunction f c"
  let ?t = "updateEntry (fn_identity f) ?g (functionTable ?c1)"
  have a: "addOverride p f c = ?c1\<lparr>functionTable := ?t\<rparr>"
    by (simp add: addOverride_def Let_def)
  have found: "findEntry (fn_identity f) ?t \<noteq> None"
    by (simp only: findEntry_updateEntry [of ?g, OF g1] findEntry_addFunction)
       (simp split: option.splits)
  have b: "addFunction f (?c1\<lparr>functionTable := ?t\<rparr>) = ?c1\<lparr>functionTable := ?t\<rparr>"
    using found by (auto simp: addFunction_def split: option.splits)
  have c: "updateEntry (fn_identity f) ?g ?t = ?t"
    by (rule updateEntry_idem [of ?g, OF g1 g2])
  show ?thesis
    unfolding a by (simp add: addOverride_def Let_def b c del: addFunction_fields)
qed

lemma addOverride_fields [simp]:
  "parents (addOverride p f c) = parents c"
  "constructorArgs (addOverride p f c) = constructorArgs c"
  "constructorCode (addOverride p f c) = constructorCode c"
  "symbols (addOverride p f c) = symbols c"
  "variables (addOverride p f c) = variables c"
  "storageLayout (addOverride p f c) = storageLayout c"
  "name (addOverride p f c) = name c"
  "upgradeable (addOverride p f c) = upgradeable c"
  by (simp_all add: addOverride_def Let_def)

lemma hasParent_addOverride [simp]: "hasParent n (addOverride p f c) = hasParent n c"
  by (simp add: hasParent_def)

lemma hasParent_addConstructorCode [simp]: "hasParent n (addConstructorCode s c) = hasParent n c"
  by (simp add: hasParent_def addConstructorCode_def)

lemma addArgument_parents: "addArgument a ow c = Inr c' \<Longrightarrow> parents c' = parents c"
  by (auto simp: addArgument_def split: option.splits if_splits)

lemma hasParent_addArgument: "addArgument a ow c = Inr c' \<Longrightarrow> hasParent n c' = hasParent n c"
  by (simp add: hasParent_def addArgument_parents)

lemma addParent_cases:
  "addParent p ps c =
     (if hasParent (contract_name p) c then (False, c)
      else (True, c\<lparr>parents := parents c @ [\<lparr>parent_contract = p, parent_params = ps\<rparr>]\<rparr>))"
  by (simp add: addParent_def)

lemma hasParent_added [simp]:
  "hasParent (contract_name p) (c\<lparr>parents := parents c @ [\<lparr>parent_contract = p, parent_params = ps\<rparr>]\<rparr>)"
  by (simp add: hasParent_def)

lemma setAccessControl_ownable:
  "setAccessControl si c (AStr ''ownable'') =
     (if hasParent ''Ownable'' c then Inr c
      else bind (addConstructorArgument \<lparr>arg_type = ''address'', arg_name = ''initialOwner''\<rparr>
                   (c\<lparr>parents := parents c @
                        [\<lparr>parent_contract = parents_Ownable, parent_params = [Lit ''initialOwner'']\<rparr>]\<rparr>))
             (\<lambda>c2. Inr (addConstructorCode
                ''require(initialOwner != address(0), \"Ownable: initial owner is zero address\");'' c2)))"
  by (simp add: setAccessControl_def addParent_cases parents_Ownable_def)

lemma setAccessControl_roles:
  "setAccessControl si c (AStr ''roles'') =
     (if hasParent ''AccessControl'' c then Inr (addOverride parents_AccessControl si c)
      else bind (addConstructorArgument \<lparr>arg_type = ''address'', arg_name = ''defaultAdmin''\<rparr>
                   (c\<lparr>parents := parents c @
                        [\<lparr>parent_contract = parents_AccessControl, parent_params = []\<rparr>]\<rparr>))
             (\<lambda>c2. Inr (addOverride parents_AccessControl si
                (addConstructorCode ''_grantRole(DEFAULT_ADMIN_ROLE, defaultAdmin);''
                  (addConstructorCode
                    ''require(defaultAdmin != address(0), \"AccessControl: default admin is zero address\");''
                    c2)))))"
  by (simp add: setAccessControl_def addParent_cases parents_AccessControl_def bind_def split: sum.splits)

lemma setAccessControl_managed:
  "setAccessControl si c (AStr ''managed'') =
     (if hasParent ''AccessManaged'' c then Inr c
      else bind (addConstructorArgument \<lparr>arg_type = ''address'', arg_name = ''initialAuthority''\<rparr>
                   (c\<lparr>parents := parents c @
                        [\<lparr>parent_contract = parents_AccessManaged, parent_params = [Lit ''initialAuthority'']\<rparr>]\<rparr>))
             (\<lambda>c2. Inr (addConstructorCode
                ''require(initialAuthority != address(0), \"AccessManaged: initial authority is zero address\");''
                c2)))"
  by (simp add: setAccessControl_def addParent_cases parents_AccessManaged_def)

lemma setAccessControl_other:
  "m \<noteq> AStr ''ownable'' \<Longrightarrow> m \<noteq> AStr ''roles'' \<Longrightarrow> m \<noteq> AStr ''managed'' \<Longrightarrow>
     setAccessControl si c m = Inr c"
  by (simp add: setAccessControl_def)

lemma setAccessControl_twice:
  assumes "setAccessControl si c m = Inr c1"
  shows "setAccessControl si c1 m = Inr c1"
proof -
  consider (own) "m = AStr ''ownable''" | (rol) "m = AStr ''roles''" | (man) "m = AStr ''managed''"
    | (oth) "m \<noteq> AStr ''ownable''" "m \<noteq> AStr ''roles''" "m \<noteq> AStr ''managed''"
    by blast
  then show ?thesis
  proof cases
    case own
    show ?thesis
    proof (cases "hasParent ''Ownable'' c")
      case True
      with assms own show ?thesis by (simp add: setAccessControl_ownable)
    next
      case False
      with assms own obtain c2 where
        a: "addConstructorArgument \<lparr>arg_type = ''address'', arg_name = ''initialOwner''\<rparr>
              (c\<lparr>parents := parents c @
                  [\<lparr>parent_contract = parents_Ownable, parent_params = [Lit ''initialOwner'']\<rparr>]\<rparr>) = Inr c2"
        and c1: "c1 = addConstructorCode
              ''require(initialOwner != address(0), \"Ownable: initial owner is zero address\");'' c2"
        by (auto simp: setAccessControl_ownable bind_eq_Inr)
      have "hasParent ''Ownable'' c2"
        using hasParent_addArgument [OF a [unfolded addConstructorArgument_def], of "''Ownable''"]
          hasParent_added [of parents_Ownable c]
        by (simp add: parents_Ownable_def)
      then show ?thesis using own c1 by (simp add: setAccessControl_ownable)
    qed
  next
    case rol
    show ?thesis
    proof (cases "hasParent ''AccessControl'' c")
      case True
      with assms rol show ?thesis by (auto simp: setAccessControl_roles addOverride_idem)
    next
      case False
      with assms rol obtain c2 where
        a: "addConstructorArgument \<lparr>arg_type = ''address'', arg_name = ''defaultAdmin''\<rparr>
              (c\<lparr>parents := parents c @
                  [\<lparr>parent_contract = parents_AccessControl, parent_params = []\<rparr>]\<rparr>) = Inr c2"
        and c1: "c1 = addOverride parents_AccessControl si
                (addConstructorCode ''_grantRole(DEFAULT_ADMIN_ROLE, defaultAdmin);''
                  (addConstructorCode
                    ''require(defaultAdmin != address(0), \"AccessControl: default admin is zero address\");''
                    c2))"
        by (auto simp: setAccessControl_roles bind_eq_Inr)
      have "hasParent ''AccessControl'' c2"
        using hasParent_addArgument [OF a [unfolded addConstructorArgument_def], of "''AccessControl''"]
          hasParent_added [of parents_AccessControl c]
        by (simp add: parents_AccessControl_def)
      then show ?thesis using rol c1 by (simp add: setAccessControl_roles addOverride_idem)
    qed
  next
    case man
    show ?thesis
    proof (cases "hasParent ''AccessManaged'' c")
      case True
      with assms man show ?thesis by (simp add: setAccessControl_managed)
    next
      case False
      with assms man obtain c2 where
        a: "addConstructorArgument \<lparr>arg_type = ''address'', arg_name = ''initialAuthority''\<rparr>
              (c\<lparr>parents := parents c @
                  [\<lparr>parent_contract = parents_AccessManaged, parent_params = [Lit ''initialAuthority'']\<rparr>]\<rparr>) = Inr c2"
        and c1: "c1 = addConstructorCode
              ''require(initialAuthority != address(0), \"AccessManaged: initial authority is zero address\");'' c2"
        by (auto simp: setAccessControl_managed bind_eq_Inr)
      have "hasParent ''AccessManaged'' c2"
        using hasParent_addArgument [OF a [unfolded addConstructorArgument_def], of "''AccessManaged''"]
          hasParent_added [of parents_AccessManaged c]
        by (simp add: parents_AccessManaged_def)
      then show ?thesis using man c1 by (simp add: setAccessControl_managed)
    qed
  next
    case oth
    with assms show ?thesis by (simp add: setAccessControl_other)
  qed
qed

lemma addArgument_frame:
  "addArgument a ow c = Inr c' \<Longrightarrow>
     parents c' = parents c \<and> constructorCode c' = constructorCode c \<and>
     functionTable c' = functionTable c \<and> symbols c' = symbols c \<and>
     variables c' = variables c \<and> storageLayout c' = storageLayout c \<and>
     name c' = name c \<and> upgradeable c' = upgradeable c"
  by (auto simp: addArgument_def split: option.splits if_splits)

lemma addConstructorCode_fields [simp]:
  "parents (addConstructorCode s c) = parents c"
  "constructorArgs (addConstructorCode s c) = constructorArgs c"
  "constructorCode (addConstructorCode s c) = constructorCode c @ [s]"
  "functionTable (addConstructorCode s c) = functionTable c"
  "symbols (addConstructorCode s c) = symbols c"
  "variables (addConstructorCode s c) = variables c"
  "storageLayout (addConstructorCode s c) = storageLayout c"
  "name (addConstructorCode s c) = name c"
  "upgradeable (addConstructorCode s c) = upgradeable c"
  by (simp_all add: addConstructorCode_def)

lemma addModifier_fields [simp]:
  "parents (addModifier m f c) = parents c"
  "constructorArgs (addModifier m f c) = constructorArgs c"
  "constructorCode (addModifier m f c) = constructorCode c"
  "symbols (addModifier m f c) = symbols c"
  "variables (addModifier m f c) = variables c"
  "storageLayout (addModifier m f c) = storageLayout c"
  "name (addModifier m f c) = name c"
  "upgradeable (addModifier m f c) = upgradeable c"
  by (simp_all add: addModifier_def Let_def)

lemma hasParent_addModifier [simp]: "hasParent n (addModifier m f c) = hasParent n c"
  by (simp add: hasParent_def)

lemma register_frame:
  "register k key p r = Inr (b, r') \<Longrightarrow> r' = (if b then r @ [((k, key), p)] else r)"
  by (auto simp: register_def split: option.splits if_splits)

lemma addDefinition_frame:
  "addConstantOrImmutableOrErrorDefinition code comments c = Inr (b, c') \<Longrightarrow>
     parents c' = parents c \<and> constructorCode c' = constructorCode c \<and>
     constructorArgs c' = constructorArgs c \<and>
     functionTable c' = functionTable c \<and>
     variables c' = variables c \<and> storageLayout c' = storageLayout c \<and>
     name c' = name c \<and> upgradeable c' = upgradeable c"
  by (auto simp: addConstantOrImmutableOrErrorDefinition_def bind_eq_Inr)

lemma addImportOnly_frame:
  "addImportOnly i c = Inr (b, c') \<Longrightarrow>
     parents c' = parents c \<and> constructorCode c' = constructorCode c \<and>
     constructorArgs c' = constructorArgs c \<and>
     functionTable c' = functionTable c \<and>
     variables c' = variables c \<and> storageLayout c' = storageLayout c \<and>
     name c' = name c \<and> upgradeable c' = upgradeable c"
  by (auto simp: addImportOnly_def bind_eq_Inr)

lemma modifiersOf_cong: "functionTable c' = functionTable c \<Longrightarrow> modifiersOf fn c' = modifiersOf fn c"
  by (simp add: modifiersOf_def)

lemma modifiersOf_addFunction [simp]: "modifiersOf fn (addFunction f c) = modifiersOf fn c"
  by (simp add: modifiersOf_def findEntry_addFunction newEntry_def split: option.splits)

lemma modifiersOf_addOverride [simp]: "modifiersOf fn (addOverride p f c) = modifiersOf fn c"
proof -
  let ?g = "\<lambda>e. if contract_name p \<in> set (entry_override e) then e
                 else e\<lparr>entry_override := entry_override e @ [contract_name p]\<rparr>"
  have g1: "\<And>e. entry_fn (?g e) = entry_fn e" by simp
  have "modifiersOf fn (addOverride p f c) =
          (case findEntry (fn_identity fn) (updateEntry (fn_identity f) ?g (functionTable (addFunction f c))) of
             None \<Rightarrow> [] | Some e \<Rightarrow> entry_modifiers e)"
    by (simp add: modifiersOf_def addOverride_def Let_def)
  also have "\<dots> = modifiersOf fn (addFunction f c)"
    by (simp only: findEntry_updateEntry [of ?g, OF g1]) (simp add: modifiersOf_def split: option.splits)
  finally show ?thesis by simp
qed

lemma modifiersOf_addModifier:
  "modifiersOf fn (addModifier m f c) =
     (if fn_identity fn = fn_identity f then
        (if m \<in> set (modifiersOf fn c) then modifiersOf fn c else modifiersOf fn c @ [m])
      else modifiersOf fn c)"
proof -
  let ?g = "\<lambda>e. if m \<in> set (entry_modifiers e) then e
                 else e\<lparr>entry_modifiers := entry_modifiers e @ [m]\<rparr>"
  have g1: "\<And>e. entry_fn (?g e) = entry_fn e" by simp
  have "modifiersOf fn (addModifier m f c) =
          (case findEntry (fn_identity fn) (updateEntry (fn_identity f) ?g (functionTable (addFunction f c))) of
             None \<Rightarrow> [] | Some e \<Rightarrow> entry_modifiers e)"
    by (simp add: modifiersOf_def addModifier_def Let_def)
  also have "\<dots> = (if fn_identity fn = fn_identity f then
        (if m \<in> set (modifiersOf fn c) then modifiersOf fn c else modifiersOf fn c @ [m])
      else modifiersOf fn c)"
    by (simp only: findEntry_updateEntry [of ?g, OF g1] findEntry_addFunction)
       (simp add: modifiersOf_def newEntry_def split: option.splits)
  finally show ?thesis .
qed

lemma setAccessControl_frame:
  assumes "setAccessControl si c m = Inr c'"
  shows "symbols c' = symbols c \<and> variables c' = variables c \<and> storageLayout c' = storageLayout c \<and>
         name c' = name c \<and> upgradeable c' = upgradeable c \<and> modifiersOf fn c' = modifiersOf fn c"
proof -
  consider (own) "m = AStr ''ownable''" | (rol) "m = AStr ''roles''" | (man) "m = AStr ''managed''"
    | (oth) "m \<noteq> AStr ''ownable''" "m \<noteq> AStr ''roles''" "m \<noteq> AStr ''managed''"
    by blast
  then show ?thesis
  proof cases
    case own
    with assms show ?thesis
      by (auto simp: setAccessControl_ownable bind_eq_Inr addConstructorArgument_def
          modifiersOf_def split: if_splits dest!: addArgument_frame)
  next
    case rol
    with assms show ?thesis
      by (auto simp: setAccessControl_roles bind_eq_Inr addConstructorArgument_def
          split: if_splits dest!: addArgument_frame)
         (simp_all add: modifiersOf_def)
  next
    case man
    with assms show ?thesis
      by (auto simp: setAccessControl_managed bind_eq_Inr addConstructorArgument_def
          modifiersOf_def split: if_splits dest!: addArgument_frame)
  next
    case oth
    with assms show ?thesis by (simp add: setAccessControl_other)
  qed
qed

lemma setAccessControl_new_parent:
  assumes "(m, p, req) \<in>
     {(AStr ''ownable'', ''Ownable'',
         [''require(initialOwner != address(0), \"Ownable: initial owner is zero address\");'']),
      (AStr ''roles'', ''AccessControl'',
         [''require(defaultAdmin != address(0), \"AccessControl: default admin is zero address\");'',
          ''_grantRole(DEFAULT_ADMIN_ROLE, defaultAdmin);'']),
      (AStr ''managed'', ''AccessManaged'',
         [''require(initialAuthority != address(0), \"AccessManaged: initial authority is zero address\");''])}"
    and "\<not> hasParent p c" and "setAccessControl si c m = Inr c'"
  shows "hasParent p c' \<and> constructorCode c' = constructorCode c @ req"
  using assms
  by (auto simp: setAccessControl_ownable setAccessControl_roles setAccessControl_managed bind_eq_Inr
      addConstructorArgument_def hasParent_def parents_Ownable_def parents_AccessControl_def
      parents_AccessManaged_def dest!: addArgument_frame)

lemma setAccessControl_old_parent:
  assumes "(m, p) \<in> {(AStr ''ownable'', ''Ownable''), (AStr ''roles'', ''AccessControl''),
      (AStr ''managed'', ''AccessManaged'')}"
    and "hasParent p c"
  shows "\<exists>c'. setAccessControl si c m = Inr c' \<and> parents c' = parents c \<and>
           constructorArgs c' = constructorArgs c \<and> constructorCode c' = constructorCode c"
  using assms
  by (auto simp: setAccessControl_ownable setAccessControl_roles setAccessControl_managed)

lemma findArgument_None: "findArgument n l = None \<longleftrightarrow> filter (\<lambda>ao. arg_name (fst ao) = n) l = []"
  by (induction l) auto

lemma argumentCount_addArgument:
  assumes "addArgument a ow c = Inr c'" and "argumentCount (arg_name a) c \<le> 1"
  shows "argumentCount (arg_name a) c' = 1"
proof (cases "findArgument (arg_name a) (constructorArgs c)")
  case None
  with assms(1) have "constructorArgs c' = constructorArgs c @ [(a, ow)]"
    by (auto simp: addArgument_def)
  with None show ?thesis by (simp add: argumentCount_def findArgument_None)
next
  case (Some ao)
  with assms(1) have same: "c' = c"
    by (auto simp: addArgument_def split: if_splits)
  from Some have "filter (\<lambda>ao. arg_name (fst ao) = arg_name a) (constructorArgs c) \<noteq> []"
    using findArgument_None [of "arg_name a" "constructorArgs c"] by simp
  then have "argumentCount (arg_name a) c \<noteq> 0" by (simp add: argumentCount_def)
  with assms(2) same show ?thesis by simp
qed

lemma parentCount_absent: "\<not> hasParent n c \<Longrightarrow> parentCount n c = 0"
  by (auto simp: hasParent_def parentCount_def filter_empty_conv)

lemma setAccessControl_counts:
  assumes "(m, p, a) \<in> {(AStr ''ownable'', ''Ownable'', ''initialOwner''),
      (AStr ''roles'', ''AccessControl'', ''defaultAdmin''),
      (AStr ''managed'', ''AccessManaged'', ''initialAuthority'')}"
    and "\<not> hasParent p c" and "argumentCount a c \<le> 1" and "setAccessControl si c m = Inr c1"
  shows "parentCount p c1 = 1 \<and> argumentCount a c1 = 1"
proof -
  have pc: "parentCount p c = 0" using assms(2) by (rule parentCount_absent)
  have ac: "\<And>ps. argumentCount a (c\<lparr>parents := ps\<rparr>) \<le> 1"
    using assms(3) by (simp add: argumentCount_def)
  from assms(1) consider (own) "m = AStr ''ownable''" "p = ''Ownable''" "a = ''initialOwner''"
    | (rol) "m = AStr ''roles''" "p = ''AccessControl''" "a = ''defaultAdmin''"
    | (man) "m = AStr ''managed''" "p = ''AccessManaged''" "a = ''initialAuthority''"
    by auto
  then show ?thesis
  proof cases
    case own
    with assms(2,4) obtain c2 where
      a: "addArgument \<lparr>arg_type = ''address'', arg_name = ''initialOwner''\<rparr> Own
            (c\<lparr>parents := parents c @
                [\<lparr>parent_contract = parents_Ownable, parent_params = [Lit ''initialOwner'']\<rparr>]\<rparr>) = Inr c2"
      and c1: "c1 = addConstructorCode
            ''require(initialOwner != address(0), \"Ownable: initial owner is zero address\");'' c2"
      by (auto simp: setAccessControl_ownable bind_eq_Inr addConstructorArgument_def)
    from argumentCount_addArgument [OF a] ac own have "argumentCount a c2 = 1" by simp
    moreover from addArgument_frame [OF a] pc own have "parentCount p c2 = 1"
      by (simp add: parentCount_def parents_Ownable_def)
    ultimately show ?thesis using c1 by (simp add: parentCount_def argumentCount_def)
  next
    case rol
    with assms(2,4) obtain c2 where
      a: "addArgument \<lparr>arg_type = ''address'', arg_name = ''defaultAdmin''\<rparr> Own
            (c\<lparr>parents := parents c @
                [\<lparr>parent_contract = parents_AccessControl, parent_params = []\<rparr>]\<rparr>) = Inr c2"
      and c1: "c1 = addOverride parents_AccessControl si
                (addConstructorCode ''_grantRole(DEFAULT_ADMIN_ROLE, defaultAdmin);''
                  (addConstructorCode
                    ''require(defaultAdmin != address(0), \"AccessControl: default admin is zero address\");''
                    c2))"
      by (auto simp: setAccessControl_roles bind_eq_Inr addConstructorArgument_def)
    from argumentCount_addArgument [OF a] ac rol have "argumentCount a c2 = 1" by simp
    moreover from addArgument_frame [OF a] pc rol have "parentCount p c2 = 1"
      by (simp add: parentCount_def parents_AccessControl_def)
    ultimately show ?thesis using c1 by (simp add: parentCount_def argumentCount_def)
  next
    case man
    with assms(2,4) obtain c2 where
      a: "addArgument \<lparr>arg_type = ''address'', arg_name = ''initialAuthority''\<rparr> Own
            (c\<lparr>parents := parents c @
                [\<lparr>parent_contract = parents_AccessManaged, parent_params = [Lit ''initialAuthority'']\<rparr>]\<rparr>) = Inr c2"
      and c1: "c1 = addConstructorCode
            ''require(initialAuthority != address(0), \"AccessManaged: initial authority is zero address\");'' c2"
      by (auto simp: setAccessControl_managed bind_eq_Inr addConstructorArgument_def)
    from argumentCount_addArgument [OF a] ac man have "argumentCount a c2 = 1" by simp
    moreover from addArgument_frame [OF a] pc man have "parentCount p c2 = 1"
      by (simp add: parentCount_def parents_AccessManaged_def)
    ultimately show ?thesis using c1 by (simp add: parentCount_def argumentCount_def)
  qed
qed

lemma setAccessControl_twice_bind:
  "bind (setAccessControl si c m) (\<lambda>c1. setAccessControl si c1 m) = setAccessControl si c m"
  by (cases "setAccessControl si c m") (simp_all add: setAccessControl_twice)

lemma setAccessControl_hasParent:
  assumes "(m, p) \<in> {(AStr ''ownable'', ''Ownable''), (AStr ''roles'', ''AccessControl''),
      (AStr ''managed'', ''AccessManaged'')}"
    and s: "setAccessControl si c m = Inr c1"
  shows "hasParent p c1"
proof (cases "hasParent p c")
  case True
  from setAccessControl_old_parent [OF assms(1) True, of si] s
  show ?thesis using True by (auto simp: hasParent_def)
next
  case False
  from assms(1) consider (own) "m = AStr ''ownable''" "p = ''Ownable''"
    | (rol) "m = AStr ''roles''" "p = ''AccessControl''"
    | (man) "m = AStr ''managed''" "p = ''AccessManaged''"
    by auto
  then show ?thesis
  proof cases
    case own
    have "(m, p, [''require(initialOwner != address(0), \"Ownable: initial owner is zero address\");'']) \<in>
     {(AStr ''ownable'', ''Ownable'',
         [''require(initialOwner != address(0), \"Ownable: initial owner is zero address\");'']),
      (AStr ''roles'', ''AccessControl'',
         [''require(defaultAdmin != address(0), \"AccessControl: default admin is zero address\");'',
          ''_grantRole(DEFAULT_ADMIN_ROLE, defaultAdmin);'']),
      (AStr ''managed'', ''AccessManaged'',
         [''require(initialAuthority != address(0), \"AccessManaged: initial authority is zero address\");''])}"
      unfolding own by (rule insertI1)
    from setAccessControl_new_parent [OF this False s] show ?thesis by (rule conjunct1)
  next
    case rol
    have "(m, p, [''require(defaultAdmin != address(0), \"AccessControl: default admin is zero address\");'',
          ''_grantRole(DEFAULT_ADMIN_ROLE, defaultAdmin);'']) \<in>
     {(AStr ''ownable'', ''Ownable'',
         [''require(initialOwner != address(0), \"Ownable: initial owner is zero address\");'']),
      (AStr ''roles'', ''AccessControl'',
         [''require(defaultAdmin != address(0), \"AccessControl: default admin is zero address\");'',
          ''_grantRole(DEFAULT_ADMIN_ROLE, defaultAdmin);'']),
      (AStr ''managed'', ''AccessManaged'',
         [''require(initialAuthority != address(0), \"AccessManaged: initial authority is zero address\");''])}"
      unfolding rol by (rule insertI2, rule insertI1)
    from setAccessControl_new_parent [OF this False s] show ?thesis by (rule conjunct1)
  next
    case man
    have "(m, p, [''require(initialAuthority != address(0), \"AccessManaged: initial authority is zero address\");'']) \<in>
     {(AStr ''ownable'', ''Ownable'',
         [''require(initialOwner != address(0), \"Ownable: initial owner is zero address\");'']),
      (AStr ''roles'', ''AccessControl'',
         [''require(defaultAdmin != address(0), \"AccessControl: default admin is zero address\");'',
          ''_grantRole(DEFAULT_ADMIN_ROLE, defaultAdmin);'']),
      (AStr ''managed'', ''AccessManaged'',
         [''require(initialAuthority != address(0), \"AccessManaged: initial authority is zero address\");''])}"
      unfolding man by (rule insertI2, rule insertI2, rule insertI1)
    from setAccessControl_new_parent [OF this False s] show ?thesis by (rule conjunct1)
  qed
qed

lemma newBuilder_roles:
  "\<exists>c1. setAccessControl sampleSupportsInterface (newBuilder ''MyContract'' False) (AStr ''roles'') = Inr c1"
  by (simp add: setAccessControl_roles hasParent_def newBuilder_def addConstructorArgument_def
      addArgument_def)

lemma requireAccessControl_ownable:
  "requireAccessControl si c fn (AStr ''ownable'') p ro =
     bind (setAccessControl si c (AStr ''ownable'')) (\<lambda>c1. Inr (addModifier ''onlyOwner'' fn c1))"
  by (simp add: requireAccessControl_def)

lemma requireAccessControl_false:
  "requireAccessControl si c fn (ABool False) p ro = requireAccessControl si c fn (AStr ''ownable'') p ro"
  by (simp add: requireAccessControl_def)

lemma requireAccessControl_roles:
  "requireAccessControl si c fn (AStr ''roles'') p ro =
     bind (setAccessControl si c (AStr ''roles'')) (\<lambda>c1.
       bind (addConstantOrImmutableOrErrorDefinition
               (''bytes32 public constant '' @ (p @ ''_ROLE'') @ '' = keccak256(\"'' @ (p @ ''_ROLE'') @ ''\");'') [] c1)
         (\<lambda>(addedConstant, c2).
           bind
             (case ro of
                Some r \<Rightarrow>
                  if r \<noteq> [] \<and> addedConstant then
                    bind (addConstructorArgument \<lparr>arg_type = ''address'', arg_name = r\<rparr> c2) (\<lambda>c3.
                      Inr (addConstructorCode (''_grantRole('' @ (p @ ''_ROLE'') @ '', '' @ r @ '');'')
                        (addConstructorCode
                          (''require('' @ r @ '' != address(0), \"AccessControl: role owner is zero address\");'')
                          c3)))
                  else Inr c2
              | None \<Rightarrow> Inr c2)
             (\<lambda>c4. Inr (addModifier (''onlyRole('' @ (p @ ''_ROLE'') @ '')'') fn c4))))"
  by (simp add: requireAccessControl_def Let_def)

lemma addDefinition_cases:
  "addConstantOrImmutableOrErrorDefinition code comments c =
     (case map_of (symbols c) (ConstantSymbol, code) of
        None \<Rightarrow> Inr (True, c\<lparr>symbols := symbols c @ [((ConstantSymbol, code), DefinitionPayload comments)]\<rparr>)
      | Some q \<Rightarrow> if q = DefinitionPayload comments then Inr (False, c\<lparr>symbols := symbols c\<rparr>)
                  else Inl (SymbolConflict code q (DefinitionPayload comments)))"
  by (simp add: addConstantOrImmutableOrErrorDefinition_def register_def split: option.splits)

lemma constructorCode_foldl:
  "constructorCode (foldl (\<lambda>b s. addConstructorCode s b) c stmts) = constructorCode c @ stmts"
  by (induction stmts arbitrary: c) simp_all

lemma setAccessControl_roles_code:
  assumes "\<not> hasParent ''AccessControl'' c" and "setAccessControl si c (AStr ''roles'') = Inr c'"
  shows "constructorCode c' = constructorCode c @
     [''require(defaultAdmin != address(0), \"AccessControl: default admin is zero address\");'',
      ''_grantRole(DEFAULT_ADMIN_ROLE, defaultAdmin);'']"
  using assms
  by (auto simp: setAccessControl_roles bind_eq_Inr addConstructorArgument_def dest!: addArgument_frame)

lemma setAccessControl_ownable_code:
  assumes "\<not> hasParent ''Ownable'' c" and "setAccessControl si c (AStr ''ownable'') = Inr c'"
  shows "constructorCode c' = constructorCode c @
     [''require(initialOwner != address(0), \"Ownable: initial owner is zero address\");'']"
  using assms
  by (auto simp: setAccessControl_ownable bind_eq_Inr addConstructorArgument_def dest!: addArgument_frame)

lemma setAccessControl_managed_code:
  assumes "\<not> hasParent ''AccessManaged'' c" and "setAccessControl si c (AStr ''managed'') = Inr c'"
  shows "constructorCode c' = constructorCode c @
     [''require(initialAuthority != address(0), \"AccessManaged: initial authority is zero address\");'']"
  using assms
  by (auto simp: setAccessControl_managed bind_eq_Inr addConstructorArgument_def dest!: addArgument_frame)

lemma newBuilder_succeeds:
  "\<exists>c'. setAccessControl si (newBuilder n u) (AStr ''ownable'') = Inr c'"
  "\<exists>c'. setAccessControl si (newBuilder n u) (AStr ''roles'') = Inr c'"
  "\<exists>c'. setAccessControl si (newBuilder n u) (AStr ''managed'') = Inr c'"
  by (simp_all add: setAccessControl_ownable setAccessControl_roles setAccessControl_managed
      hasParent_def newBuilder_def addConstructorArgument_def addArgument_def)

lemma newBuilder_no_parent: "\<not> hasParent p (newBuilder n u)"
  by (simp add: hasParent_def newBuilder_def)

lemma newBuilder_fields [simp]:
  "constructorCode (newBuilder n u) = []"
  "constructorArgs (newBuilder n u) = []"
  "symbols (newBuilder n u) = []"
  "parents (newBuilder n u) = []"
  "functionTable (newBuilder n u) = []"
  "variables (newBuilder n u) = []"
  "storageLayout (newBuilder n u) = []"
  "name (newBuilder n u) = n"
  "upgradeable (newBuilder n u) = u"
  by (simp_all add: newBuilder_def)

subsection \<open>What the operations leave unchanged\<close>

lemma requireAccessControl_managed:
  "requireAccessControl si c fn (AStr ''managed'') p ro =
     bind (setAccessControl si c (AStr ''managed'')) (\<lambda>c1. Inr (addModifier ''restricted'' fn c1))"
  by (simp add: requireAccessControl_def)

lemma requireAccessControl_other:
  "m \<noteq> ABool False \<Longrightarrow> m \<noteq> AStr ''ownable'' \<Longrightarrow> m \<noteq> AStr ''roles'' \<Longrightarrow> m \<noteq> AStr ''managed'' \<Longrightarrow>
     requireAccessControl si c fn m p ro = Inr c"
  by (simp add: requireAccessControl_def setAccessControl_other)

lemma bind_eq_Inr_pair:
  "bind m (\<lambda>(a, b). f a b) = Inr y \<longleftrightarrow> (\<exists>a b. m = Inr (a, b) \<and> f a b = Inr y)"
  by (cases m) auto

lemma requireAccessControl_roles_steps:
  assumes "requireAccessControl si c fn (AStr ''roles'') p ro = Inr c'"
  shows "\<exists>c1 b c2 c4.
      setAccessControl si c (AStr ''roles'') = Inr c1 \<and>
      addConstantOrImmutableOrErrorDefinition
        (''bytes32 public constant '' @ (p @ ''_ROLE'') @ '' = keccak256(\"'' @ (p @ ''_ROLE'') @ ''\");'')
        [] c1 = Inr (b, c2) \<and>
      (c4 = c2 \<or>
       (\<exists>r c3. ro = Some r \<and> r \<noteq> [] \<and> b \<and>
          addArgument \<lparr>arg_type = ''address'', arg_name = r\<rparr> Own c2 = Inr c3 \<and>
          c4 = addConstructorCode (''_grantRole('' @ (p @ ''_ROLE'') @ '', '' @ r @ '');'')
                 (addConstructorCode
                   (''require('' @ r @ '' != address(0), \"AccessControl: role owner is zero address\");'')
                   c3))) \<and>
      c' = addModifier (''onlyRole('' @ (p @ ''_ROLE'') @ '')'') fn c4"
proof -
  define decl where
    "decl = ''bytes32 public constant '' @ (p @ ''_ROLE'') @ '' = keccak256(\"'' @ (p @ ''_ROLE'') @ ''\");''"
  define md where "md = ''onlyRole('' @ (p @ ''_ROLE'') @ '')''"
  define grant where "grant r = ''_grantRole('' @ (p @ ''_ROLE'') @ '', '' @ r @ '');''" for r
  define req where
    "req r = ''require('' @ r @ '' != address(0), \"AccessControl: role owner is zero address\");''" for r
  define owner_step where
    "owner_step b c2 =
       (case ro of
          Some r \<Rightarrow>
            if r \<noteq> [] \<and> b then
              bind (addConstructorArgument \<lparr>arg_type = ''address'', arg_name = r\<rparr> c2) (\<lambda>c3.
                Inr (addConstructorCode (grant r) (addConstructorCode (req r) c3)))
            else Inr c2
        | None \<Rightarrow> Inr c2)" for b c2
  have eq: "requireAccessControl si c fn (AStr ''roles'') p ro =
     bind (setAccessControl si c (AStr ''roles'')) (\<lambda>c1.
       bind (addConstantOrImmutableOrErrorDefinition decl [] c1) (\<lambda>(b, c2).
         bind (owner_step b c2) (\<lambda>c4. Inr (addModifier md fn c4))))"
    unfolding decl_def md_def owner_step_def grant_def req_def by (rule requireAccessControl_roles)
  from assms obtain c1 b c2 c4 where
    s: "setAccessControl si c (AStr ''roles'') = Inr c1"
    and d: "addConstantOrImmutableOrErrorDefinition decl [] c1 = Inr (b, c2)"
    and o: "owner_step b c2 = Inr c4"
    and c': "c' = addModifier md fn c4"
    unfolding eq by (auto simp: bind_eq_Inr bind_eq_Inr_pair)
  from o have "c4 = c2 \<or>
       (\<exists>r c3. ro = Some r \<and> r \<noteq> [] \<and> b \<and>
          addArgument \<lparr>arg_type = ''address'', arg_name = r\<rparr> Own c2 = Inr c3 \<and>
          c4 = addConstructorCode (grant r) (addConstructorCode (req r) c3))"
    unfolding owner_step_def addConstructorArgument_def
    by (cases ro) (auto simp: bind_eq_Inr split: if_splits)
  with s d c' show ?thesis
    unfolding decl_def md_def grant_def req_def by blast
qed

lemma requireAccessControl_roles_result:
  assumes "requireAccessControl si c fn (AStr ''roles'') p ro = Inr c'"
  shows "variables c' = variables c \<and> storageLayout c' = storageLayout c \<and>
         name c' = name c \<and> upgradeable c' = upgradeable c \<and>
         modifiersOf g c' =
           (if fn_identity g = fn_identity fn then
              (if ''onlyRole('' @ p @ ''_ROLE)'' \<in> set (modifiersOf g c) then modifiersOf g c
               else modifiersOf g c @ [''onlyRole('' @ p @ ''_ROLE)''])
            else modifiersOf g c) \<and>
         map_of (symbols c')
           (ConstantSymbol, ''bytes32 public constant '' @ p @ ''_ROLE = keccak256(\"'' @ p @ ''_ROLE\");'') =
           Some (DefinitionPayload [])"
proof -
  define decl where
    "decl = ''bytes32 public constant '' @ (p @ ''_ROLE'') @ '' = keccak256(\"'' @ (p @ ''_ROLE'') @ ''\");''"
  define md where "md = ''onlyRole('' @ (p @ ''_ROLE'') @ '')''"
  have decl: "''bytes32 public constant '' @ p @ ''_ROLE = keccak256(\"'' @ p @ ''_ROLE\");'' = decl"
    by (simp add: decl_def)
  have md: "''onlyRole('' @ p @ ''_ROLE)'' = md" by (simp add: md_def)
  from requireAccessControl_roles_steps [OF assms] obtain c1 b c2 c4 where
    s: "setAccessControl si c (AStr ''roles'') = Inr c1"
    and d: "addConstantOrImmutableOrErrorDefinition decl [] c1 = Inr (b, c2)"
    and o: "c4 = c2 \<or>
       (\<exists>r c3 x y. ro = Some r \<and> r \<noteq> [] \<and> b \<and>
          addArgument \<lparr>arg_type = ''address'', arg_name = r\<rparr> Own c2 = Inr c3 \<and>
          c4 = addConstructorCode x (addConstructorCode y c3))"
    and c': "c' = addModifier md fn c4"
    unfolding decl_def md_def by blast
  note f1 = setAccessControl_frame [OF s, of g]
  note f2 = addDefinition_frame [OF d]
  have sym2: "map_of (symbols c2) (ConstantSymbol, decl) = Some (DefinitionPayload [])"
    using d by (auto simp: addDefinition_cases map_of_append map_add_def split: option.splits if_splits)
  have f4: "variables c4 = variables c2 \<and> storageLayout c4 = storageLayout c2 \<and> name c4 = name c2 \<and>
            upgradeable c4 = upgradeable c2 \<and> functionTable c4 = functionTable c2 \<and> symbols c4 = symbols c2"
    using o by (auto dest!: addArgument_frame)
  have m2: "modifiersOf g c4 = modifiersOf g c"
    using f1 f2 f4 by (simp add: modifiersOf_def)
  show ?thesis
    unfolding decl md using f1 f2 f4 sym2 m2 by (simp add: c' modifiersOf_addModifier)
qed

lemma requireAccessControl_frame:
  assumes "requireAccessControl si c fn a p ro = Inr c'"
  shows "variables c' = variables c \<and> storageLayout c' = storageLayout c \<and>
         name c' = name c \<and> upgradeable c' = upgradeable c"
proof -
  consider (fls) "a = ABool False" | (own) "a = AStr ''ownable''" | (rol) "a = AStr ''roles''"
    | (man) "a = AStr ''managed''"
    | (oth) "a \<noteq> ABool False" "a \<noteq> AStr ''ownable''" "a \<noteq> AStr ''roles''" "a \<noteq> AStr ''managed''"
    by blast
  then show ?thesis
  proof cases
    case fls
    with assms obtain c1 where "setAccessControl si c (AStr ''ownable'') = Inr c1"
      and "c' = addModifier ''onlyOwner'' fn c1"
      unfolding fls requireAccessControl_false requireAccessControl_ownable bind_eq_Inr by auto
    then show ?thesis using setAccessControl_frame [of si c "AStr ''ownable''" c1] by simp
  next
    case own
    with assms obtain c1 where "setAccessControl si c (AStr ''ownable'') = Inr c1"
      and "c' = addModifier ''onlyOwner'' fn c1"
      unfolding own requireAccessControl_ownable bind_eq_Inr by auto
    then show ?thesis using setAccessControl_frame [of si c "AStr ''ownable''" c1] by simp
  next
    case rol
    with assms requireAccessControl_roles_result [of si c fn p ro c'] show ?thesis by simp
  next
    case man
    with assms obtain c1 where "setAccessControl si c (AStr ''managed'') = Inr c1"
      and "c' = addModifier ''restricted'' fn c1"
      unfolding man requireAccessControl_managed bind_eq_Inr by auto
    then show ?thesis using setAccessControl_frame [of si c "AStr ''managed''" c1] by simp
  next
    case oth
    with assms show ?thesis by (simp add: requireAccessControl_other)
  qed
qed

lemma addFunctionCode_frame:
  assumes "addFunctionCode code f c = Inr c'"
  shows "parents c' = parents c \<and> constructorArgs c' = constructorArgs c \<and>
         constructorCode c' = constructorCode c \<and> symbols c' = symbols c \<and>
         variables c' = variables c \<and> storageLayout c' = storageLayout c \<and>
         name c' = name c \<and> upgradeable c' = upgradeable c \<and>
         modifiersOf g c' = modifiersOf g c"
proof -
  let ?h = "\<lambda>e. e\<lparr>entry_body := [code]\<rparr>"
  have h1: "\<And>e. entry_fn (?h e) = entry_fn e" by simp
  from assms have "c' = addFunction f c \<or>
      c' = (addFunction f c)\<lparr>functionTable :=
              updateEntry (fn_identity f) ?h (functionTable (addFunction f c))\<rparr>"
    by (auto simp: addFunctionCode_def Let_def split: option.splits if_splits)
  then show ?thesis
  proof
    assume "c' = addFunction f c"
    then show ?thesis by simp
  next
    assume c': "c' = (addFunction f c)\<lparr>functionTable :=
              updateEntry (fn_identity f) ?h (functionTable (addFunction f c))\<rparr>"
    have "findEntry (fn_identity g) (updateEntry (fn_identity f) ?h (functionTable (addFunction f c))) =
            (if fn_identity g = fn_identity f
             then map_option ?h (findEntry (fn_identity g) (functionTable (addFunction f c)))
             else findEntry (fn_identity g) (functionTable (addFunction f c)))"
      by (rule findEntry_updateEntry [of ?h, OF h1])
    then have "modifiersOf g c' = modifiersOf g (addFunction f c)"
      unfolding c' modifiersOf_def by (simp split: option.splits)
    then show ?thesis by (simp add: c')
  qed
qed

lemma setNamespacedStorage_fields [simp]:
  "parents (setNamespacedStorage c vs l) = parents c"
  "constructorArgs (setNamespacedStorage c vs l) = constructorArgs c"
  "constructorCode (setNamespacedStorage c vs l) = constructorCode c"
  "functionTable (setNamespacedStorage c vs l) = functionTable c"
  "symbols (setNamespacedStorage c vs l) = symbols c"
  "variables (setNamespacedStorage c vs l) = variables c"
  "name (setNamespacedStorage c vs l) = name c"
  "upgradeable (setNamespacedStorage c vs l) = upgradeable c"
  "storageLayout (setNamespacedStorage c vs l) = mergeLayout (name c) l vs (storageLayout c)"
  by (simp_all add: setNamespacedStorage_def)

lemma addStateVariable_fields [simp]:
  "parents (addStateVariable d u c) = parents c"
  "constructorArgs (addStateVariable d u c) = constructorArgs c"
  "constructorCode (addStateVariable d u c) = constructorCode c"
  "functionTable (addStateVariable d u c) = functionTable c"
  "symbols (addStateVariable d u c) = symbols c"
  "name (addStateVariable d u c) = name c"
  "upgradeable (addStateVariable d u c) = upgradeable c"
  by (simp_all add: addStateVariable_def)

lemma addStateVariable_plain:
  "\<not> upgradeable c \<Longrightarrow> storageLayout (addStateVariable d u c) = storageLayout c \<and>
     variables (addStateVariable d u c) = (if d \<in> set (variables c) then variables c else variables c @ [d])"
  by (simp add: addStateVariable_def)

lemma addVariable_fields [simp]:
  "parents (addVariable d c) = parents c"
  "constructorArgs (addVariable d c) = constructorArgs c"
  "constructorCode (addVariable d c) = constructorCode c"
  "functionTable (addVariable d c) = functionTable c"
  "symbols (addVariable d c) = symbols c"
  "name (addVariable d c) = name c"
  "upgradeable (addVariable d c) = upgradeable c"
  "storageLayout (addVariable d c) = storageLayout c"
  "variables (addVariable d c) = variables c @ [d]"
  by (simp_all add: addVariable_def)

lemma modifiersOf_addVariable [simp]: "modifiersOf g (addVariable d c) = modifiersOf g c"
  by (simp add: modifiersOf_def)

lemma addImportOnly_symbols_only:
  "addImportOnly i c = Inr (b, c') \<Longrightarrow> \<exists>r. c' = c\<lparr>symbols := r\<rparr>"
  by (auto simp: addImportOnly_def bind_eq_Inr)

lemma addDefinition_symbols_only:
  "addConstantOrImmutableOrErrorDefinition code comments c = Inr (b, c') \<Longrightarrow> \<exists>r. c' = c\<lparr>symbols := r\<rparr>"
  by (auto simp: addConstantOrImmutableOrErrorDefinition_def bind_eq_Inr)

lemma addAddressVerification_steps:
  assumes "addAddressVerification t si c a = Inr c'"
  shows "\<exists>r c8 c9.
     addIsAddressVerifiedFunction t
       (if upgradeable c then
          setNamespacedStorage (c\<lparr>symbols := r\<rparr>)
            [''mapping(address account => bool verified) _verifiedAddresses''] ''openzeppelin.storage''
        else addStateVariable ''mapping(address => bool) private _verifiedAddresses;'' False
               (c\<lparr>symbols := r\<rparr>)) = Inr c8 \<and>
     addVerifyAddressOwnershipFunction t c8 = Inr c9 \<and>
     (if truthy a then addRevokeAddressVerificationFunction t si c9 a = Inr c' else c' = c9)"
proof -
  from assms obtain a1 c1 a2 c2 a3 c3 a4 c4 a5 c5 a6 c6 c8 c9 where
    s1: "addImportOnly importECDSA c = Inr (a1, c1)"
    and s2: "addImportOnly importMessageHashUtils c1 = Inr (a2, c2)"
    and s3: "addConstantOrImmutableOrErrorDefinition ''event AddressVerified(address indexed account);''
             [''/// @dev Emitted when an address is verified''] c2 = Inr (a3, c3)"
    and s4: "addConstantOrImmutableOrErrorDefinition ''event VerificationRevoked(address indexed account);''
             [''/// @dev Emitted when address verification is revoked''] c3 = Inr (a4, c4)"
    and s5: "addConstantOrImmutableOrErrorDefinition ''error InvalidSignature();''
             [''/// @dev Error thrown when signature verification fails''] c4 = Inr (a5, c5)"
    and s6: "addConstantOrImmutableOrErrorDefinition ''error AlreadyVerified();''
             [''/// @dev Error thrown when address is already verified''] c5 = Inr (a6, c6)"
    and s8: "addIsAddressVerifiedFunction t
             (if upgradeable c6 then
                setNamespacedStorage c6 [''mapping(address account => bool verified) _verifiedAddresses'']
                  ''openzeppelin.storage''
              else addStateVariable ''mapping(address => bool) private _verifiedAddresses;'' False c6) = Inr c8"
    and s9: "addVerifyAddressOwnershipFunction t c8 = Inr c9"
    and s10: "(if truthy a then addRevokeAddressVerificationFunction t si c9 a else Inr c9) = Inr c'"
    unfolding addAddressVerification_def bind_eq_Inr split_paired_Ex prod.case by blast
  from addImportOnly_symbols_only [OF s1] obtain r1 where r1: "c1 = c\<lparr>symbols := r1\<rparr>" by blast
  from addImportOnly_symbols_only [OF s2] obtain r2 where r2: "c2 = c1\<lparr>symbols := r2\<rparr>" by blast
  from addDefinition_symbols_only [OF s3] obtain r3 where r3: "c3 = c2\<lparr>symbols := r3\<rparr>" by blast
  from addDefinition_symbols_only [OF s4] obtain r4 where r4: "c4 = c3\<lparr>symbols := r4\<rparr>" by blast
  from addDefinition_symbols_only [OF s5] obtain r5 where r5: "c5 = c4\<lparr>symbols := r5\<rparr>" by blast
  from addDefinition_symbols_only [OF s6] obtain r6 where r6: "c6 = c5\<lparr>symbols := r6\<rparr>" by blast
  have c6: "c6 = c\<lparr>symbols := r6\<rparr>" by (simp add: r1 r2 r3 r4 r5 r6)
  from s8 have s8': "addIsAddressVerifiedFunction t
       (if upgradeable c then
          setNamespacedStorage (c\<lparr>symbols := r6\<rparr>)
            [''mapping(address account => bool verified) _verifiedAddresses''] ''openzeppelin.storage''
        else addStateVariable ''mapping(address => bool) private _verifiedAddresses;'' False
               (c\<lparr>symbols := r6\<rparr>)) = Inr c8"
    unfolding c6 by simp
  from s10 have "if truthy a then addRevokeAddressVerificationFunction t si c9 a = Inr c' else c' = c9"
    by (simp split: if_splits)
  with s8' s9 show ?thesis by blast
qed

lemma addIsAddressVerifiedFunction_frame:
  assumes "addIsAddressVerifiedFunction t c = Inr c'"
  shows "parents c' = parents c \<and> constructorArgs c' = constructorArgs c \<and>
         constructorCode c' = constructorCode c \<and> symbols c' = symbols c \<and>
         variables c' = variables c \<and> storageLayout c' = storageLayout c \<and>
         name c' = name c \<and> upgradeable c' = upgradeable c \<and>
         modifiersOf g c' = modifiersOf g c"
  using assms unfolding addIsAddressVerifiedFunction_def Let_def by (rule addFunctionCode_frame)

lemma addVerifyAddressOwnershipFunction_frame:
  assumes "addVerifyAddressOwnershipFunction t c = Inr c'"
  shows "parents c' = parents c \<and> constructorArgs c' = constructorArgs c \<and>
         constructorCode c' = constructorCode c \<and> symbols c' = symbols c \<and>
         variables c' = variables c \<and> storageLayout c' = storageLayout c \<and>
         name c' = name c \<and> upgradeable c' = upgradeable c \<and>
         modifiersOf g c' = modifiersOf g c"
  using assms unfolding addVerifyAddressOwnershipFunction_def Let_def by (rule addFunctionCode_frame)

lemma addRevokeAddressVerificationFunction_steps:
  assumes "addRevokeAddressVerificationFunction t si c a = Inr c'"
  shows "\<exists>c1 code.
           requireAccessControl si c functions_revokeAddressVerification a ''DEFAULT_ADMIN_ROLE'' None = Inr c1 \<and>
           addFunctionCode code functions_revokeAddressVerification c1 = Inr c'"
  using assms unfolding addRevokeAddressVerificationFunction_def bind_eq_Inr Let_def by blast

lemma addAddressVerification_before_revoke:
  assumes "addAddressVerification t si c a = Inr c'"
  shows "\<exists>c9. (if truthy a then addRevokeAddressVerificationFunction t si c9 a = Inr c' else c' = c9) \<and>
     name c9 = name c \<and> upgradeable c9 = upgradeable c \<and>
     modifiersOf g c9 = modifiersOf g c \<and>
     (if upgradeable c then
        variables c9 = variables c \<and>
        storageLayout c9 = mergeLayout (name c) ''openzeppelin.storage''
          [''mapping(address account => bool verified) _verifiedAddresses''] (storageLayout c)
      else
        storageLayout c9 = storageLayout c \<and>
        variables c9 =
          (if ''mapping(address => bool) private _verifiedAddresses;'' \<in> set (variables c) then variables c
           else variables c @ [''mapping(address => bool) private _verifiedAddresses;'']))"
proof -
  from addAddressVerification_steps [OF assms] obtain r c8 c9 where
    s8: "addIsAddressVerifiedFunction t
       (if upgradeable c then
          setNamespacedStorage (c\<lparr>symbols := r\<rparr>)
            [''mapping(address account => bool verified) _verifiedAddresses''] ''openzeppelin.storage''
        else addStateVariable ''mapping(address => bool) private _verifiedAddresses;'' False
               (c\<lparr>symbols := r\<rparr>)) = Inr c8"
    and s9: "addVerifyAddressOwnershipFunction t c8 = Inr c9"
    and s10: "if truthy a then addRevokeAddressVerificationFunction t si c9 a = Inr c' else c' = c9"
    by blast
  note f8 = addIsAddressVerifiedFunction_frame [OF s8, of g]
  note f9 = addVerifyAddressOwnershipFunction_frame [OF s9, of g]
  have "name c9 = name c \<and> upgradeable c9 = upgradeable c \<and>
     modifiersOf g c9 = modifiersOf g c \<and>
     (if upgradeable c then
        variables c9 = variables c \<and>
        storageLayout c9 = mergeLayout (name c) ''openzeppelin.storage''
          [''mapping(address account => bool verified) _verifiedAddresses''] (storageLayout c)
      else
        storageLayout c9 = storageLayout c \<and>
        variables c9 =
          (if ''mapping(address => bool) private _verifiedAddresses;'' \<in> set (variables c) then variables c
           else variables c @ [''mapping(address => bool) private _verifiedAddresses;'']))"
  proof (cases "upgradeable c")
    case True
    with f8 f9 show ?thesis by (simp add: modifiersOf_def)
  next
    case False
    with f8 f9 show ?thesis by (simp add: modifiersOf_def addStateVariable_def)
  qed
  with s10 show ?thesis by blast
qed

lemma addAddressVerification_roles_result:
  assumes "addAddressVerification t si c (AStr ''roles'') = Inr c'"
  shows "modifiersOf functions_revokeAddressVerification c' =
           (if ''onlyRole(DEFAULT_ADMIN_ROLE_ROLE)'' \<in> set (modifiersOf functions_revokeAddressVerification c)
            then modifiersOf functions_revokeAddressVerification c
            else modifiersOf functions_revokeAddressVerification c @ [''onlyRole(DEFAULT_ADMIN_ROLE_ROLE)'']) \<and>
         map_of (symbols c')
           (ConstantSymbol,
            ''bytes32 public constant DEFAULT_ADMIN_ROLE_ROLE = keccak256(\"DEFAULT_ADMIN_ROLE_ROLE\");'') =
           Some (DefinitionPayload [])"
proof -
  let ?g = functions_revokeAddressVerification
  from addAddressVerification_before_revoke [OF assms, of ?g] obtain c9 where
    r: "addRevokeAddressVerificationFunction t si c9 (AStr ''roles'') = Inr c'"
    and m9: "modifiersOf ?g c9 = modifiersOf ?g c"
    by auto
  from addRevokeAddressVerificationFunction_steps [OF r] obtain c1 code where
    q: "requireAccessControl si c9 ?g (AStr ''roles'') ''DEFAULT_ADMIN_ROLE'' None = Inr c1"
    and b: "addFunctionCode code ?g c1 = Inr c'"
    by blast
  note f1 = requireAccessControl_roles_result [OF q, of ?g]
  note f2 = addFunctionCode_frame [OF b, of ?g]
  from f1 f2 m9 show ?thesis by simp
qed

lemma not_isl_Inr: "\<not> isl x \<Longrightarrow> \<exists>y. x = Inr y"
  by (cases x) simp_all

lemma addVariables_fields [simp]:
  "variables (foldl (\<lambda>b v. addVariable v b) c vs) = variables c @ vs"
  "storageLayout (foldl (\<lambda>b v. addVariable v b) c vs) = storageLayout c"
  "functionTable (foldl (\<lambda>b v. addVariable v b) c vs) = functionTable c"
  "symbols (foldl (\<lambda>b v. addVariable v b) c vs) = symbols c"
  "name (foldl (\<lambda>b v. addVariable v b) c vs) = name c"
  "upgradeable (foldl (\<lambda>b v. addVariable v b) c vs) = upgradeable c"
  by (induction vs arbitrary: c) simp_all

lemma addAddressVerification_freeform_unfold:
  "addAddressVerification_freeform si c a =
     bind (addImportOnly importECDSA c) (\<lambda>(a1, c1).
     bind (addImportOnly importMessageHashUtils c1) (\<lambda>(a2, c2).
       if truthy a then
         requireAccessControl si
           (addFunction freeform_verifyAddressOwnership
             (addFunction freeform_isAddressVerified (foldl (\<lambda>b v. addVariable v b) c2 freeformBlocks)))
           freeform_revokeAddressVerification a ''DEFAULT_ADMIN_ROLE'' None
       else Inr (addFunction freeform_verifyAddressOwnership
             (addFunction freeform_isAddressVerified (foldl (\<lambda>b v. addVariable v b) c2 freeformBlocks)))))"
  by (simp add: addAddressVerification_freeform_def freeformBlocks_def Let_def cong: if_cong)

lemma addAddressVerification_freeform_before_require:
  assumes "addAddressVerification_freeform si c a = Inr c'"
  shows "\<exists>c9. (if truthy a then
                 requireAccessControl si c9 freeform_revokeAddressVerification a ''DEFAULT_ADMIN_ROLE'' None = Inr c'
               else c' = c9) \<and>
     modifiersOf g c9 = modifiersOf g c \<and>
     variables c9 = variables c @ freeformBlocks \<and> storageLayout c9 = storageLayout c"
proof -
  define c9 where "c9 c2 = addFunction freeform_verifyAddressOwnership
             (addFunction freeform_isAddressVerified (foldl (\<lambda>b v. addVariable v b) c2 freeformBlocks))" for c2
  have eq: "addAddressVerification_freeform si c a =
     bind (addImportOnly importECDSA c) (\<lambda>(a1, c1).
     bind (addImportOnly importMessageHashUtils c1) (\<lambda>(a2, c2).
       if truthy a then
         requireAccessControl si (c9 c2) freeform_revokeAddressVerification a ''DEFAULT_ADMIN_ROLE'' None
       else Inr (c9 c2)))"
    unfolding c9_def by (rule addAddressVerification_freeform_unfold)
  from assms obtain a1 c1 a2 c2 where
    s1: "addImportOnly importECDSA c = Inr (a1, c1)"
    and s2: "addImportOnly importMessageHashUtils c1 = Inr (a2, c2)"
    and s3: "(if truthy a then
         requireAccessControl si (c9 c2) freeform_revokeAddressVerification a ''DEFAULT_ADMIN_ROLE'' None
       else Inr (c9 c2)) = Inr c'"
    unfolding eq bind_eq_Inr split_paired_Ex prod.case by blast
  from addImportOnly_symbols_only [OF s1] obtain r1 where r1: "c1 = c\<lparr>symbols := r1\<rparr>" by blast
  from addImportOnly_symbols_only [OF s2] obtain r2 where r2: "c2 = c1\<lparr>symbols := r2\<rparr>" by blast
  have c2: "functionTable c2 = functionTable c" "variables c2 = variables c" "storageLayout c2 = storageLayout c"
    by (simp_all add: r1 r2)
  have m: "modifiersOf g (c9 c2) = modifiersOf g c"
    by (simp add: c9_def) (simp add: modifiersOf_def c2)
  have v: "variables (c9 c2) = variables c @ freeformBlocks \<and> storageLayout (c9 c2) = storageLayout c"
    by (simp add: c9_def c2)
  from s3 have "if truthy a then
                 requireAccessControl si (c9 c2) freeform_revokeAddressVerification a ''DEFAULT_ADMIN_ROLE'' None = Inr c'
               else c' = c9 c2"
    by (simp split: if_splits)
  with m v show ?thesis by blast
qed

lemma addAddressVerification_freeform_variables:
  assumes "addAddressVerification_freeform si c a = Inr c'"
  shows "variables c' = variables c @ freeformBlocks"
proof -
  from addAddressVerification_freeform_before_require [OF assms] obtain c9 where
    r: "if truthy a then
          requireAccessControl si c9 freeform_revokeAddressVerification a ''DEFAULT_ADMIN_ROLE'' None = Inr c'
        else c' = c9"
    and v: "variables c9 = variables c @ freeformBlocks"
    by blast
  show ?thesis
  proof (cases "truthy a")
    case True
    with r requireAccessControl_frame [of si c9 freeform_revokeAddressVerification a "''DEFAULT_ADMIN_ROLE''" None c'] v
    show ?thesis by simp
  next
    case False
    with r v show ?thesis by simp
  qed
qed

lemma addAddressVerification_variables:
  assumes "addAddressVerification t si c a = Inr c'"
  shows "length (variables c') \<le> length (variables c) + 1"
proof -
  from addAddressVerification_before_revoke [OF assms, of functions_revokeAddressVerification] obtain c9 where
    r: "if truthy a then addRevokeAddressVerificationFunction t si c9 a = Inr c' else c' = c9"
    and v: "if upgradeable c then
        variables c9 = variables c \<and>
        storageLayout c9 = mergeLayout (name c) ''openzeppelin.storage''
          [''mapping(address account => bool verified) _verifiedAddresses''] (storageLayout c)
      else
        storageLayout c9 = storageLayout c \<and>
        variables c9 =
          (if ''mapping(address => bool) private _verifiedAddresses;'' \<in> set (variables c) then variables c
           else variables c @ [''mapping(address => bool) private _verifiedAddresses;''])"
    by blast
  have l: "length (variables c9) \<le> length (variables c) + 1"
  proof (cases "upgradeable c")
    case True
    with v show ?thesis by simp
  next
    case False
    with v show ?thesis by simp
  qed
  show ?thesis
  proof (cases "truthy a")
    case True
    with r have "addRevokeAddressVerificationFunction t si c9 a = Inr c'" by simp
    from addRevokeAddressVerificationFunction_steps [OF this] obtain c1 code where
      q: "requireAccessControl si c9 functions_revokeAddressVerification a ''DEFAULT_ADMIN_ROLE'' None = Inr c1"
      and b: "addFunctionCode code functions_revokeAddressVerification c1 = Inr c'"
      by blast
    from requireAccessControl_frame [OF q] addFunctionCode_frame [OF b] l show ?thesis by simp
  next
    case False
    with r l show ?thesis by simp
  qed
qed

lemma freeformBlocks_length: "length freeformBlocks = 5"
  by (simp add: freeformBlocks_def)

lemma addAddressVerification_freeform_roles_result:
  assumes "addAddressVerification_freeform si c (AStr ''roles'') = Inr c'"
  shows "modifiersOf freeform_revokeAddressVerification c' =
           (if ''onlyRole(DEFAULT_ADMIN_ROLE_ROLE)'' \<in> set (modifiersOf freeform_revokeAddressVerification c)
            then modifiersOf freeform_revokeAddressVerification c
            else modifiersOf freeform_revokeAddressVerification c @ [''onlyRole(DEFAULT_ADMIN_ROLE_ROLE)'']) \<and>
         map_of (symbols c')
           (ConstantSymbol,
            ''bytes32 public constant DEFAULT_ADMIN_ROLE_ROLE = keccak256(\"DEFAULT_ADMIN_ROLE_ROLE\");'') =
           Some (DefinitionPayload [])"
proof -
  let ?g = freeform_revokeAddressVerification
  from addAddressVerification_freeform_before_require [OF assms, of ?g] obtain c9 where
    q: "requireAccessControl si c9 ?g (AStr ''roles'') ''DEFAULT_ADMIN_ROLE'' None = Inr c'"
    and m9: "modifiersOf ?g c9 = modifiersOf ?g c"
    by auto
  note f1 = requireAccessControl_roles_result [OF q, of ?g]
  from f1 m9 show ?thesis by simp
qed

lemma eval_structured_roles:
  "\<not> isl (addAddressVerification sampleStorageStructInstantiation sampleSupportsInterface
            (newBuilder ''MyContract'' False) (AStr ''roles''))"
  by code_simp

lemma eval_freeform_roles:
  "\<not> isl (addAddressVerification_freeform sampleSupportsInterface
            (newBuilder ''MyContract'' False) (AStr ''roles''))"
  by code_simp

lemma modifiersOf_newBuilder [simp]: "modifiersOf g (newBuilder n u) = []"
  by (simp add: modifiersOf_def)

lemma conflictingBuilder_structured:
  "addAddressVerification t si conflictingBuilder a =
     Inl (SymbolConflict ''event AddressVerified(address indexed account);''
            (DefinitionPayload [''/// @dev Emitted once per verified account''])
            (DefinitionPayload [''/// @dev Emitted when an address is verified'']))"
  by (simp add: addAddressVerification_def conflictingBuilder_def newBuilder_def addImportOnly_def
      register_def importECDSA_def importMessageHashUtils_def addDefinition_cases)

lemma conflictingBuilder_freeform:
  "\<exists>c'. addAddressVerification_freeform si conflictingBuilder (ABool False) = Inr c'"
  by (simp add: addAddressVerification_freeform_unfold conflictingBuilder_def newBuilder_def
      addImportOnly_def register_def importECDSA_def importMessageHashUtils_def)

lemma eval_freeform_plain:
  "\<not> isl (addAddressVerification_freeform sampleSupportsInterface
            (newBuilder ''MyContract'' False) (ABool False))"
  by code_simp

lemma register_lookup:
  "register k key p r = Inr (b, r') \<Longrightarrow> map_of r' (k, key) = Some p"
  by (auto simp: register_def map_of_append map_add_def split: option.splits if_splits)

lemma addArgument_succeeds:
  "(\<exists>c'. addArgument arg ow c = Inr c') \<longleftrightarrow>
     (findArgument (arg_name arg) (constructorArgs c) = None \<or>
      findArgument (arg_name arg) (constructorArgs c) = Some (arg, ow))"
  by (cases "findArgument (arg_name arg) (constructorArgs c)")
     (auto simp: addArgument_def prod_eq_iff)

lemma addArgument_fresh:
  "findArgument (arg_name arg) (constructorArgs c) = None \<Longrightarrow>
     addArgument arg ow c = Inr (c\<lparr>constructorArgs := constructorArgs c @ [(arg, ow)]\<rparr>)"
  by (simp add: addArgument_def)

lemma setAccessControl_fresh:
  assumes "(m, par, ps, a) \<in>
      {(AStr ''ownable'', parents_Ownable, [Lit ''initialOwner''], ''initialOwner''),
       (AStr ''roles'', parents_AccessControl, [], ''defaultAdmin''),
       (AStr ''managed'', parents_AccessManaged, [Lit ''initialAuthority''], ''initialAuthority'')}"
    and "\<not> hasParent (contract_name par) c"
    and "findArgument a (constructorArgs c) = None"
  shows "\<exists>c1. setAccessControl si c m = Inr c1 \<and>
           parents c1 = parents c @ [\<lparr>parent_contract = par, parent_params = ps\<rparr>] \<and>
           constructorArgs c1 = constructorArgs c @ [(\<lparr>arg_type = ''address'', arg_name = a\<rparr>, Own)]"
proof -
  from assms(1) consider
    (own) "m = AStr ''ownable''" "par = parents_Ownable" "ps = [Lit ''initialOwner'']" "a = ''initialOwner''"
    | (rol) "m = AStr ''roles''" "par = parents_AccessControl" "ps = []" "a = ''defaultAdmin''"
    | (man) "m = AStr ''managed''" "par = parents_AccessManaged" "ps = [Lit ''initialAuthority'']"
        "a = ''initialAuthority''"
    by auto
  then show ?thesis
  proof cases
    case own
    with assms(2,3) show ?thesis
      by (simp add: setAccessControl_ownable addConstructorArgument_def addArgument_fresh
          parents_Ownable_def)
  next
    case rol
    with assms(2,3) show ?thesis
      by (simp add: setAccessControl_roles addConstructorArgument_def addArgument_fresh
          parents_AccessControl_def)
  next
    case man
    with assms(2,3) show ?thesis
      by (simp add: setAccessControl_managed addConstructorArgument_def addArgument_fresh
          parents_AccessManaged_def)
  qed
qed

lemma setAccessControl_succeeds:
  assumes "(m, par, ps, a) \<in>
      {(AStr ''ownable'', parents_Ownable, [Lit ''initialOwner''], ''initialOwner''),
       (AStr ''roles'', parents_AccessControl, [], ''defaultAdmin''),
       (AStr ''managed'', parents_AccessManaged, [Lit ''initialAuthority''], ''initialAuthority'')}"
  shows "(\<exists>c1. setAccessControl si c m = Inr c1) \<longleftrightarrow>
           (hasParent (contract_name par) c \<or>
            findArgument a (constructorArgs c) = None \<or>
            findArgument a (constructorArgs c) = Some (\<lparr>arg_type = ''address'', arg_name = a\<rparr>, Own))"
proof -
  from assms consider
    (own) "m = AStr ''ownable''" "par = parents_Ownable" "a = ''initialOwner''"
    | (rol) "m = AStr ''roles''" "par = parents_AccessControl" "a = ''defaultAdmin''"
    | (man) "m = AStr ''managed''" "par = parents_AccessManaged" "a = ''initialAuthority''"
    by auto
  then show ?thesis
  proof cases
    case own
    show ?thesis
      using addArgument_succeeds [of "\<lparr>arg_type = ''address'', arg_name = ''initialOwner''\<rparr>" Own
          "c\<lparr>parents := parents c @
               [\<lparr>parent_contract = parents_Ownable, parent_params = [Lit ''initialOwner'']\<rparr>]\<rparr>"]
      unfolding own
      by (simp add: setAccessControl_ownable addConstructorArgument_def bind_eq_Inr parents_Ownable_def)
  next
    case rol
    show ?thesis
      using addArgument_succeeds [of "\<lparr>arg_type = ''address'', arg_name = ''defaultAdmin''\<rparr>" Own
          "c\<lparr>parents := parents c @
               [\<lparr>parent_contract = parents_AccessControl, parent_params = []\<rparr>]\<rparr>"]
      unfolding rol
      by (simp add: setAccessControl_roles addConstructorArgument_def bind_eq_Inr parents_AccessControl_def)
  next
    case man
    show ?thesis
      using addArgument_succeeds [of "\<lparr>arg_type = ''address'', arg_name = ''initialAuthority''\<rparr>" Own
          "c\<lparr>parents := parents c @
               [\<lparr>parent_contract = parents_AccessManaged, parent_params = [Lit ''initialAuthority'']\<rparr>]\<rparr>"]
      unfolding man
      by (simp add: setAccessControl_managed addConstructorArgument_def bind_eq_Inr parents_AccessManaged_def)
  qed
qed

lemma mode_names:
  assumes "(m, par, ps, a) \<in>
      {(AStr ''ownable'', parents_Ownable, [Lit ''initialOwner''], ''initialOwner''),
       (AStr ''roles'', parents_AccessControl, [], ''defaultAdmin''),
       (AStr ''managed'', parents_AccessManaged, [Lit ''initialAuthority''], ''initialAuthority'')}"
  shows "(m, contract_name par, a) \<in> {(AStr ''ownable'', ''Ownable'', ''initialOwner''),
      (AStr ''roles'', ''AccessControl'', ''defaultAdmin''),
      (AStr ''managed'', ''AccessManaged'', ''initialAuthority'')}"
proof -
  from assms consider
    (own) "m = AStr ''ownable''" "par = parents_Ownable" "a = ''initialOwner''"
    | (rol) "m = AStr ''roles''" "par = parents_AccessControl" "a = ''defaultAdmin''"
    | (man) "m = AStr ''managed''" "par = parents_AccessManaged" "a = ''initialAuthority''"
    by auto
  then show ?thesis
  proof cases
    case own
    have n: "contract_name parents_Ownable = ''Ownable''" by (simp add: parents_Ownable_def)
    show ?thesis unfolding own n by (intro insertI1)
  next
    case rol
    have n: "contract_name parents_AccessControl = ''AccessControl''" by (simp add: parents_AccessControl_def)
    show ?thesis unfolding rol n by (intro insertI2 insertI1)
  next
    case man
    have n: "contract_name parents_AccessManaged = ''AccessManaged''" by (simp add: parents_AccessManaged_def)
    show ?thesis unfolding man n by (intro insertI2 insertI1)
  qed
qed

section \<open>Applying the access mode twice\<close>

text \<open>
  C1: for every builder and every mode among \<^verbatim>\<open>'ownable'\<close>, \<^verbatim>\<open>'roles'\<close>, \<^verbatim>\<open>'managed'\<close>
  (with its parent, the parent's construction arguments and its constructor
  argument): when the parent is present, \<^verbatim>\<open>setAccessControl\<close> succeeds and leaves the
  parents, the constructor arguments and the constructor statements as they were;
  applying it twice is the same as applying it once; after a successful call the
  parent is present, a second call returns the same builder, and, when the parent
  was absent and the argument name occurred at most once, the result has exactly one
  inheritance entry for the parent and exactly one constructor argument of that
  name. The call succeeds exactly when the parent is present, or no constructor
  argument has the mode's name, or the first argument of that name is the contract's
  own address argument. On a builder without the parent and without an argument of
  that name the call succeeds, appends the parent with its construction arguments
  and the address argument, yields exactly one inheritance entry and one argument,
  and a second call returns the same builder.
\<close>

theorem setAccessControl_applied_twice:
  assumes "(m, par, ps, a) \<in>
      {(AStr ''ownable'', parents_Ownable, [Lit ''initialOwner''], ''initialOwner''),
       (AStr ''roles'', parents_AccessControl, [], ''defaultAdmin''),
       (AStr ''managed'', parents_AccessManaged, [Lit ''initialAuthority''], ''initialAuthority'')}"
  shows "(hasParent (contract_name par) c \<longrightarrow>
            (\<exists>c'. setAccessControl si c m = Inr c' \<and> parents c' = parents c \<and>
                  constructorArgs c' = constructorArgs c \<and> constructorCode c' = constructorCode c)) \<and>
         bind (setAccessControl si c m) (\<lambda>c1. setAccessControl si c1 m) = setAccessControl si c m \<and>
         (\<forall>c1. setAccessControl si c m = Inr c1 \<longrightarrow>
            hasParent (contract_name par) c1 \<and> setAccessControl si c1 m = Inr c1 \<and>
            (\<not> hasParent (contract_name par) c \<and> argumentCount a c \<le> 1 \<longrightarrow>
               parentCount (contract_name par) c1 = 1 \<and> argumentCount a c1 = 1)) \<and>
         ((\<exists>c1. setAccessControl si c m = Inr c1) \<longleftrightarrow>
            (hasParent (contract_name par) c \<or>
             findArgument a (constructorArgs c) = None \<or>
             findArgument a (constructorArgs c) = Some (\<lparr>arg_type = ''address'', arg_name = a\<rparr>, Own))) \<and>
         (\<not> hasParent (contract_name par) c \<and> findArgument a (constructorArgs c) = None \<longrightarrow>
            (\<exists>c1. setAccessControl si c m = Inr c1 \<and>
               parents c1 = parents c @ [\<lparr>parent_contract = par, parent_params = ps\<rparr>] \<and>
               constructorArgs c1 = constructorArgs c @ [(\<lparr>arg_type = ''address'', arg_name = a\<rparr>, Own)] \<and>
               parentCount (contract_name par) c1 = 1 \<and> argumentCount a c1 = 1 \<and>
               setAccessControl si c1 m = Inr c1))"
proof -
  note mpa = mode_names [OF assms]
  from mpa have mp: "(m, contract_name par) \<in> {(AStr ''ownable'', ''Ownable''), (AStr ''roles'', ''AccessControl''),
      (AStr ''managed'', ''AccessManaged'')}"
    by auto
  have 1: "hasParent (contract_name par) c \<longrightarrow>
            (\<exists>c'. setAccessControl si c m = Inr c' \<and> parents c' = parents c \<and>
                  constructorArgs c' = constructorArgs c \<and> constructorCode c' = constructorCode c)"
    using setAccessControl_old_parent [OF mp] by blast
  have 2: "bind (setAccessControl si c m) (\<lambda>c1. setAccessControl si c1 m) = setAccessControl si c m"
    by (rule setAccessControl_twice_bind)
  have 3: "\<forall>c1. setAccessControl si c m = Inr c1 \<longrightarrow>
            hasParent (contract_name par) c1 \<and> setAccessControl si c1 m = Inr c1 \<and>
            (\<not> hasParent (contract_name par) c \<and> argumentCount a c \<le> 1 \<longrightarrow>
               parentCount (contract_name par) c1 = 1 \<and> argumentCount a c1 = 1)"
  proof (intro allI impI)
    fix c1 assume s: "setAccessControl si c m = Inr c1"
    have a: "hasParent (contract_name par) c1" using mp s by (rule setAccessControl_hasParent)
    have b: "setAccessControl si c1 m = Inr c1" using s by (rule setAccessControl_twice)
    have c: "\<not> hasParent (contract_name par) c \<and> argumentCount a c \<le> 1 \<longrightarrow>
               parentCount (contract_name par) c1 = 1 \<and> argumentCount a c1 = 1"
      using setAccessControl_counts [OF mpa _ _ s] by blast
    from a b c show "hasParent (contract_name par) c1 \<and> setAccessControl si c1 m = Inr c1 \<and>
            (\<not> hasParent (contract_name par) c \<and> argumentCount a c \<le> 1 \<longrightarrow>
               parentCount (contract_name par) c1 = 1 \<and> argumentCount a c1 = 1)"
      by (intro conjI)
  qed
  note 4 = setAccessControl_succeeds [OF assms, of si c]
  have 5: "\<not> hasParent (contract_name par) c \<and> findArgument a (constructorArgs c) = None \<longrightarrow>
            (\<exists>c1. setAccessControl si c m = Inr c1 \<and>
               parents c1 = parents c @ [\<lparr>parent_contract = par, parent_params = ps\<rparr>] \<and>
               constructorArgs c1 = constructorArgs c @ [(\<lparr>arg_type = ''address'', arg_name = a\<rparr>, Own)] \<and>
               parentCount (contract_name par) c1 = 1 \<and> argumentCount a c1 = 1 \<and>
               setAccessControl si c1 m = Inr c1)"
  proof
    assume h: "\<not> hasParent (contract_name par) c \<and> findArgument a (constructorArgs c) = None"
    then have np: "\<not> hasParent (contract_name par) c" and na: "findArgument a (constructorArgs c) = None"
      by simp_all
    from setAccessControl_fresh [OF assms np na, of si] obtain c1 where
      s: "setAccessControl si c m = Inr c1"
      and p: "parents c1 = parents c @ [\<lparr>parent_contract = par, parent_params = ps\<rparr>]"
      and g: "constructorArgs c1 = constructorArgs c @ [(\<lparr>arg_type = ''address'', arg_name = a\<rparr>, Own)]"
      by blast
    from na have "argumentCount a c \<le> 1"
      by (simp add: argumentCount_def findArgument_None)
    from setAccessControl_counts [OF mpa np this s]
    have n: "parentCount (contract_name par) c1 = 1 \<and> argumentCount a c1 = 1" .
    have t: "setAccessControl si c1 m = Inr c1" using s by (rule setAccessControl_twice)
    from s p g n t show "\<exists>c1. setAccessControl si c m = Inr c1 \<and>
               parents c1 = parents c @ [\<lparr>parent_contract = par, parent_params = ps\<rparr>] \<and>
               constructorArgs c1 = constructorArgs c @ [(\<lparr>arg_type = ''address'', arg_name = a\<rparr>, Own)] \<and>
               parentCount (contract_name par) c1 = 1 \<and> argumentCount a c1 = 1 \<and>
               setAccessControl si c1 m = Inr c1"
      by blast
  qed
  from 1 2 3 4 5 show ?thesis by (intro conjI)
qed

text \<open>
  The statement on a new builder, for each of the three modes: the call succeeds and
  adds the one parent and the one argument, and on its result, where the parent is
  present, the call succeeds again and leaves parents, arguments and statements as
  they are.
\<close>

theorem setAccessControl_applied_twice_witness:
  "(\<exists>c1. setAccessControl sampleSupportsInterface (newBuilder ''MyContract'' False) (AStr ''ownable'') = Inr c1 \<and>
      parents c1 = [\<lparr>parent_contract = parents_Ownable, parent_params = [Lit ''initialOwner'']\<rparr>] \<and>
      constructorArgs c1 = [(\<lparr>arg_type = ''address'', arg_name = ''initialOwner''\<rparr>, Own)] \<and>
      parentCount ''Ownable'' c1 = 1 \<and> argumentCount ''initialOwner'' c1 = 1 \<and>
      hasParent ''Ownable'' c1 \<and>
      (\<exists>c2. setAccessControl sampleSupportsInterface c1 (AStr ''ownable'') = Inr c2 \<and> c2 = c1 \<and>
         parents c2 = parents c1 \<and> constructorArgs c2 = constructorArgs c1 \<and>
         constructorCode c2 = constructorCode c1)) \<and>
   (\<exists>c1. setAccessControl sampleSupportsInterface (newBuilder ''MyContract'' False) (AStr ''roles'') = Inr c1 \<and>
      parents c1 = [\<lparr>parent_contract = parents_AccessControl, parent_params = []\<rparr>] \<and>
      constructorArgs c1 = [(\<lparr>arg_type = ''address'', arg_name = ''defaultAdmin''\<rparr>, Own)] \<and>
      parentCount ''AccessControl'' c1 = 1 \<and> argumentCount ''defaultAdmin'' c1 = 1 \<and>
      hasParent ''AccessControl'' c1 \<and>
      (\<exists>c2. setAccessControl sampleSupportsInterface c1 (AStr ''roles'') = Inr c2 \<and> c2 = c1 \<and>
         parents c2 = parents c1 \<and> constructorArgs c2 = constructorArgs c1 \<and>
         constructorCode c2 = constructorCode c1)) \<and>
   (\<exists>c1. setAccessControl sampleSupportsInterface (newBuilder ''MyContract'' False) (AStr ''managed'') = Inr c1 \<and>
      parents c1 = [\<lparr>parent_contract = parents_AccessManaged, parent_params = [Lit ''initialAuthority'']\<rparr>] \<and>
      constructorArgs c1 = [(\<lparr>arg_type = ''address'', arg_name = ''initialAuthority''\<rparr>, Own)] \<and>
      parentCount ''AccessManaged'' c1 = 1 \<and> argumentCount ''initialAuthority'' c1 = 1 \<and>
      hasParent ''AccessManaged'' c1 \<and>
      (\<exists>c2. setAccessControl sampleSupportsInterface c1 (AStr ''managed'') = Inr c2 \<and> c2 = c1 \<and>
         parents c2 = parents c1 \<and> constructorArgs c2 = constructorArgs c1 \<and>
         constructorCode c2 = constructorCode c1))"
proof -
  let ?b = "newBuilder ''MyContract'' False"
  let ?si = sampleSupportsInterface
  let ?S = "{(AStr ''ownable'', parents_Ownable, [Lit ''initialOwner''], ''initialOwner''),
       (AStr ''roles'', parents_AccessControl, [], ''defaultAdmin''),
       (AStr ''managed'', parents_AccessManaged, [Lit ''initialAuthority''], ''initialAuthority'')}"
  have n1: "contract_name parents_Ownable = ''Ownable''" by (simp add: parents_Ownable_def)
  have n2: "contract_name parents_AccessControl = ''AccessControl''" by (simp add: parents_AccessControl_def)
  have n3: "contract_name parents_AccessManaged = ''AccessManaged''" by (simp add: parents_AccessManaged_def)
  have fresh: "\<And>p a. \<not> hasParent p ?b \<and> findArgument a (constructorArgs ?b) = None"
    by (simp add: newBuilder_no_parent)
  have m1: "(AStr ''ownable'', parents_Ownable, [Lit ''initialOwner''], ''initialOwner'') \<in> ?S"
    by (rule insertI1)
  have m2: "(AStr ''roles'', parents_AccessControl, [], ''defaultAdmin'') \<in> ?S"
    by (rule insertI2, rule insertI1)
  have m3: "(AStr ''managed'', parents_AccessManaged, [Lit ''initialAuthority''], ''initialAuthority'') \<in> ?S"
    by (rule insertI2, rule insertI2, rule insertI1)
  have own: "\<exists>c1. setAccessControl ?si ?b (AStr ''ownable'') = Inr c1 \<and>
      parents c1 = [\<lparr>parent_contract = parents_Ownable, parent_params = [Lit ''initialOwner'']\<rparr>] \<and>
      constructorArgs c1 = [(\<lparr>arg_type = ''address'', arg_name = ''initialOwner''\<rparr>, Own)] \<and>
      parentCount ''Ownable'' c1 = 1 \<and> argumentCount ''initialOwner'' c1 = 1 \<and>
      hasParent ''Ownable'' c1 \<and>
      (\<exists>c2. setAccessControl ?si c1 (AStr ''ownable'') = Inr c2 \<and> c2 = c1 \<and>
         parents c2 = parents c1 \<and> constructorArgs c2 = constructorArgs c1 \<and>
         constructorCode c2 = constructorCode c1)"
  proof -
    note t = setAccessControl_applied_twice [OF m1, where si = ?si]
    from t [where c = ?b, THEN conjunct2, THEN conjunct2, THEN conjunct2, THEN conjunct2, rule_format, OF fresh]
    obtain c1 where s: "setAccessControl ?si ?b (AStr ''ownable'') = Inr c1"
      and r: "parents c1 = parents ?b @ [\<lparr>parent_contract = parents_Ownable, parent_params = [Lit ''initialOwner'']\<rparr>]"
        "constructorArgs c1 = constructorArgs ?b @ [(\<lparr>arg_type = ''address'', arg_name = ''initialOwner''\<rparr>, Own)]"
        "parentCount (contract_name parents_Ownable) c1 = 1" "argumentCount ''initialOwner'' c1 = 1"
        "setAccessControl ?si c1 (AStr ''ownable'') = Inr c1"
      by blast
    from t [where c = ?b, THEN conjunct2, THEN conjunct2, THEN conjunct1, rule_format, OF s]
    have hp: "hasParent (contract_name parents_Ownable) c1" by (rule conjunct1)
    from t [where c = c1, THEN conjunct1, rule_format, OF hp] r(5)
    have again: "\<exists>c2. setAccessControl ?si c1 (AStr ''ownable'') = Inr c2 \<and> c2 = c1 \<and>
         parents c2 = parents c1 \<and> constructorArgs c2 = constructorArgs c1 \<and>
         constructorCode c2 = constructorCode c1"
      by simp
    from s r hp again show ?thesis unfolding n1 by (intro exI [of _ c1]) simp
  qed
  have rol: "\<exists>c1. setAccessControl ?si ?b (AStr ''roles'') = Inr c1 \<and>
      parents c1 = [\<lparr>parent_contract = parents_AccessControl, parent_params = []\<rparr>] \<and>
      constructorArgs c1 = [(\<lparr>arg_type = ''address'', arg_name = ''defaultAdmin''\<rparr>, Own)] \<and>
      parentCount ''AccessControl'' c1 = 1 \<and> argumentCount ''defaultAdmin'' c1 = 1 \<and>
      hasParent ''AccessControl'' c1 \<and>
      (\<exists>c2. setAccessControl ?si c1 (AStr ''roles'') = Inr c2 \<and> c2 = c1 \<and>
         parents c2 = parents c1 \<and> constructorArgs c2 = constructorArgs c1 \<and>
         constructorCode c2 = constructorCode c1)"
  proof -
    note t = setAccessControl_applied_twice [OF m2, where si = ?si]
    from t [where c = ?b, THEN conjunct2, THEN conjunct2, THEN conjunct2, THEN conjunct2, rule_format, OF fresh]
    obtain c1 where s: "setAccessControl ?si ?b (AStr ''roles'') = Inr c1"
      and r: "parents c1 = parents ?b @ [\<lparr>parent_contract = parents_AccessControl, parent_params = []\<rparr>]"
        "constructorArgs c1 = constructorArgs ?b @ [(\<lparr>arg_type = ''address'', arg_name = ''defaultAdmin''\<rparr>, Own)]"
        "parentCount (contract_name parents_AccessControl) c1 = 1" "argumentCount ''defaultAdmin'' c1 = 1"
        "setAccessControl ?si c1 (AStr ''roles'') = Inr c1"
      by blast
    from t [where c = ?b, THEN conjunct2, THEN conjunct2, THEN conjunct1, rule_format, OF s]
    have hp: "hasParent (contract_name parents_AccessControl) c1" by (rule conjunct1)
    from t [where c = c1, THEN conjunct1, rule_format, OF hp] r(5)
    have again: "\<exists>c2. setAccessControl ?si c1 (AStr ''roles'') = Inr c2 \<and> c2 = c1 \<and>
         parents c2 = parents c1 \<and> constructorArgs c2 = constructorArgs c1 \<and>
         constructorCode c2 = constructorCode c1"
      by simp
    from s r hp again show ?thesis unfolding n2 by (intro exI [of _ c1]) simp
  qed
  have man: "\<exists>c1. setAccessControl ?si ?b (AStr ''managed'') = Inr c1 \<and>
      parents c1 = [\<lparr>parent_contract = parents_AccessManaged, parent_params = [Lit ''initialAuthority'']\<rparr>] \<and>
      constructorArgs c1 = [(\<lparr>arg_type = ''address'', arg_name = ''initialAuthority''\<rparr>, Own)] \<and>
      parentCount ''AccessManaged'' c1 = 1 \<and> argumentCount ''initialAuthority'' c1 = 1 \<and>
      hasParent ''AccessManaged'' c1 \<and>
      (\<exists>c2. setAccessControl ?si c1 (AStr ''managed'') = Inr c2 \<and> c2 = c1 \<and>
         parents c2 = parents c1 \<and> constructorArgs c2 = constructorArgs c1 \<and>
         constructorCode c2 = constructorCode c1)"
  proof -
    note t = setAccessControl_applied_twice [OF m3, where si = ?si]
    from t [where c = ?b, THEN conjunct2, THEN conjunct2, THEN conjunct2, THEN conjunct2, rule_format, OF fresh]
    obtain c1 where s: "setAccessControl ?si ?b (AStr ''managed'') = Inr c1"
      and r: "parents c1 = parents ?b @ [\<lparr>parent_contract = parents_AccessManaged, parent_params = [Lit ''initialAuthority'']\<rparr>]"
        "constructorArgs c1 = constructorArgs ?b @ [(\<lparr>arg_type = ''address'', arg_name = ''initialAuthority''\<rparr>, Own)]"
        "parentCount (contract_name parents_AccessManaged) c1 = 1" "argumentCount ''initialAuthority'' c1 = 1"
        "setAccessControl ?si c1 (AStr ''managed'') = Inr c1"
      by blast
    from t [where c = ?b, THEN conjunct2, THEN conjunct2, THEN conjunct1, rule_format, OF s]
    have hp: "hasParent (contract_name parents_AccessManaged) c1" by (rule conjunct1)
    from t [where c = c1, THEN conjunct1, rule_format, OF hp] r(5)
    have again: "\<exists>c2. setAccessControl ?si c1 (AStr ''managed'') = Inr c2 \<and> c2 = c1 \<and>
         parents c2 = parents c1 \<and> constructorArgs c2 = constructorArgs c1 \<and>
         constructorCode c2 = constructorCode c1"
      by simp
    from s r hp again show ?thesis unfolding n3 by (intro exI [of _ c1]) simp
  qed
  from own rol man show ?thesis by (intro conjI)
qed

section \<open>The Symbol Registry\<close>

text \<open>
  C2: for every kind, key and payload, registering a symbol whose key is registered
  with the identical payload returns \<^verbatim>\<open>added = false\<close>, raises no error and leaves
  the registry as it is; registering the key with a different payload fails with
  SymbolConflict, naming the key and both payloads; a key that is not registered is
  added. So after a successful registration, the same registration again is a no-op
  and one with another payload is a conflict. In particular, after the import
  identifier \<^verbatim>\<open>ECDSA\<close> was added with a path, adding it again with the same path
  returns \<^verbatim>\<open>false\<close> and changes nothing, and adding it with a different path fails
  with SymbolConflict.
\<close>

theorem register_again:
  "(map_of r (k, key) = Some p \<longrightarrow> register k key p r = Inr (False, r)) \<and>
   (map_of r (k, key) = Some q \<and> q \<noteq> p \<longrightarrow> register k key p r = Inl (SymbolConflict key q p)) \<and>
   (map_of r (k, key) = None \<longrightarrow> register k key p r = Inr (True, r @ [((k, key), p)])) \<and>
   (register k key p r = Inr (b, r') \<longrightarrow>
      register k key p r' = Inr (False, r') \<and>
      (q \<noteq> p \<longrightarrow> register k key q r' = Inl (SymbolConflict key p q))) \<and>
   (addImportOnly \<lparr>contract_name = ''ECDSA'', contract_path = pathA\<rparr> c = Inr (b, c') \<longrightarrow>
      addImportOnly \<lparr>contract_name = ''ECDSA'', contract_path = pathA\<rparr> c' = Inr (False, c') \<and>
      (pathB \<noteq> pathA \<longrightarrow>
         addImportOnly \<lparr>contract_name = ''ECDSA'', contract_path = pathB\<rparr> c' =
           Inl (SymbolConflict ''ECDSA'' (ImportPayload pathA True) (ImportPayload pathB True))))"
proof -
  have 1: "map_of r (k, key) = Some p \<longrightarrow> register k key p r = Inr (False, r)"
    by (simp add: register_def)
  have 2: "map_of r (k, key) = Some q \<and> q \<noteq> p \<longrightarrow> register k key p r = Inl (SymbolConflict key q p)"
    by (simp add: register_def)
  have 3: "map_of r (k, key) = None \<longrightarrow> register k key p r = Inr (True, r @ [((k, key), p)])"
    by (simp add: register_def)
  have 4: "register k key p r = Inr (b, r') \<longrightarrow>
      register k key p r' = Inr (False, r') \<and>
      (q \<noteq> p \<longrightarrow> register k key q r' = Inl (SymbolConflict key p q))"
  proof
    assume "register k key p r = Inr (b, r')"
    from register_lookup [OF this] show "register k key p r' = Inr (False, r') \<and>
      (q \<noteq> p \<longrightarrow> register k key q r' = Inl (SymbolConflict key p q))"
      by (auto simp: register_def)
  qed
  have 5: "addImportOnly \<lparr>contract_name = ''ECDSA'', contract_path = pathA\<rparr> c = Inr (b, c') \<longrightarrow>
      addImportOnly \<lparr>contract_name = ''ECDSA'', contract_path = pathA\<rparr> c' = Inr (False, c') \<and>
      (pathB \<noteq> pathA \<longrightarrow>
         addImportOnly \<lparr>contract_name = ''ECDSA'', contract_path = pathB\<rparr> c' =
           Inl (SymbolConflict ''ECDSA'' (ImportPayload pathA True) (ImportPayload pathB True)))"
  proof
    assume "addImportOnly \<lparr>contract_name = ''ECDSA'', contract_path = pathA\<rparr> c = Inr (b, c')"
    then obtain r' where
      reg: "register ImportSymbol ''ECDSA'' (ImportPayload pathA True) (symbols c) = Inr (b, r')"
      and c': "c' = c\<lparr>symbols := r'\<rparr>"
      by (auto simp: addImportOnly_def bind_eq_Inr)
    from register_lookup [OF reg] have "map_of (symbols c') (ImportSymbol, ''ECDSA'') = Some (ImportPayload pathA True)"
      by (simp add: c')
    then show "addImportOnly \<lparr>contract_name = ''ECDSA'', contract_path = pathA\<rparr> c' = Inr (False, c') \<and>
      (pathB \<noteq> pathA \<longrightarrow>
         addImportOnly \<lparr>contract_name = ''ECDSA'', contract_path = pathB\<rparr> c' =
           Inl (SymbolConflict ''ECDSA'' (ImportPayload pathA True) (ImportPayload pathB True)))"
      by (auto simp: addImportOnly_def register_def c')
  qed
  from 1 2 3 4 5 show ?thesis by (intro conjI)
qed

text \<open>
  The statement for the import of the feature: \<^verbatim>\<open>ECDSA\<close> is added to a new builder,
  added again, and then added with another path.
\<close>

theorem register_again_witness:
  "\<exists>c'. addImportOnly importECDSA (newBuilder ''MyContract'' False) = Inr (True, c') \<and>
        map_of (symbols c') (ImportSymbol, ''ECDSA'') =
          Some (ImportPayload ''@openzeppelin/contracts/utils/cryptography/ECDSA.sol'' True) \<and>
        register ImportSymbol ''ECDSA''
          (ImportPayload ''@openzeppelin/contracts/utils/cryptography/ECDSA.sol'' True) (symbols c') =
          Inr (False, symbols c') \<and>
        register ImportSymbol ''ECDSA'' (ImportPayload ''./ECDSA.sol'' True) (symbols c') =
          Inl (SymbolConflict ''ECDSA''
                 (ImportPayload ''@openzeppelin/contracts/utils/cryptography/ECDSA.sol'' True)
                 (ImportPayload ''./ECDSA.sol'' True)) \<and>
        addImportOnly importECDSA c' = Inr (False, c') \<and>
        addImportOnly \<lparr>contract_name = ''ECDSA'', contract_path = ''./ECDSA.sol''\<rparr> c' =
          Inl (SymbolConflict ''ECDSA''
                 (ImportPayload ''@openzeppelin/contracts/utils/cryptography/ECDSA.sol'' True)
                 (ImportPayload ''./ECDSA.sol'' True))"
proof -
  let ?b = "newBuilder ''MyContract'' False"
  let ?A = "''@openzeppelin/contracts/utils/cryptography/ECDSA.sol''"
  let ?B = "''./ECDSA.sol''"
  define c' where "c' = ?b\<lparr>symbols := [((ImportSymbol, ''ECDSA''), ImportPayload ?A True)]\<rparr>"
  have i: "importECDSA = \<lparr>contract_name = ''ECDSA'', contract_path = ?A\<rparr>"
    by (simp add: importECDSA_def)
  have free: "map_of (symbols ?b) (ImportSymbol, ''ECDSA'') = None" by simp
  note t = register_again [where r = "symbols ?b" and k = ImportSymbol and key = "''ECDSA''"
      and p = "ImportPayload ?A True" and q = "ImportPayload ?B True" and b = True and r' = "symbols c'"
      and pathA = ?A and pathB = ?B and c = ?b and c' = c']
  note t3 = t [THEN conjunct2, THEN conjunct2, THEN conjunct1, rule_format, OF free]
  have r': "symbols ?b @ [((ImportSymbol, ''ECDSA''), ImportPayload ?A True)] = symbols c'"
    by (simp add: c'_def)
  have first: "addImportOnly importECDSA ?b = Inr (True, c')"
    using t3 unfolding i by (simp add: addImportOnly_def c'_def newBuilder_def)
  have look: "map_of (symbols c') (ImportSymbol, ''ECDSA'') = Some (ImportPayload ?A True)"
    by (simp add: c'_def)
  note u1 = register_again [where r = "symbols c'" and k = ImportSymbol and key = "''ECDSA''"
      and p = "ImportPayload ?A True", THEN conjunct1, rule_format, OF look]
  have neq: "ImportPayload ?A True \<noteq> ImportPayload ?B True" by simp
  note u2 = register_again [where r = "symbols c'" and k = ImportSymbol and key = "''ECDSA''"
      and p = "ImportPayload ?B True" and q = "ImportPayload ?A True",
      THEN conjunct2, THEN conjunct1, rule_format, OF conjI, OF look neq]
  note t5 = t [THEN conjunct2, THEN conjunct2, THEN conjunct2, THEN conjunct2, rule_format,
      OF first [unfolded i]]
  have pneq: "?B \<noteq> ?A" by simp
  from first look u1 u2 t5 [THEN conjunct1, folded i] t5 [THEN conjunct2, rule_format, OF pneq]
  show ?thesis by (intro exI [of _ c']) simp
qed

section \<open>No access control requested\<close>

text \<open>
  C3: for every builder, function, role-id prefix and role owner,
  \<^verbatim>\<open>requireAccessControl\<close> called with \<^verbatim>\<open>access = false\<close> behaves exactly as called with
  \<^verbatim>\<open>'ownable'\<close>, in the Solidity and in the Stylus package; the value \<^verbatim>\<open>false\<close> raises no
  error of its own. In the Solidity builder the call is \<^verbatim>\<open>setAccessControl\<close> in the
  single-owner mode followed by the modifier \<^verbatim>\<open>onlyOwner\<close>: a successful call leaves the
  Ownable parent present and \<^verbatim>\<open>onlyOwner\<close> among the modifiers of the function, and the
  call succeeds whenever the parent is present already or no constructor argument is
  named \<^verbatim>\<open>initialOwner\<close>.
\<close>

theorem requireAccessControl_defaults_to_ownable:
  "requireAccessControl si c fn (ABool False) p ro = requireAccessControl si c fn (AStr ''ownable'') p ro \<and>
   requireAccessControl_stylus b t f (ABool False) p ro =
     requireAccessControl_stylus b t f (AStr ''ownable'') p ro \<and>
   requireAccessControl_stylus b t f (ABool False) p ro = Inr (b, t, f) \<and>
   requireAccessControl si c fn (ABool False) p ro =
     bind (setAccessControl si c (AStr ''ownable'')) (\<lambda>c1. Inr (addModifier ''onlyOwner'' fn c1)) \<and>
   (\<forall>c'. requireAccessControl si c fn (ABool False) p ro = Inr c' \<longrightarrow>
      hasParent ''Ownable'' c' \<and> ''onlyOwner'' \<in> set (modifiersOf fn c')) \<and>
   (hasParent ''Ownable'' c \<or> findArgument ''initialOwner'' (constructorArgs c) = None \<longrightarrow>
      (\<exists>c'. requireAccessControl si c fn (ABool False) p ro = Inr c'))"
proof -
  have 1: "requireAccessControl si c fn (ABool False) p ro = requireAccessControl si c fn (AStr ''ownable'') p ro"
    by (rule requireAccessControl_false)
  have 2: "requireAccessControl_stylus b t f (ABool False) p ro =
     requireAccessControl_stylus b t f (AStr ''ownable'') p ro"
    by (simp add: requireAccessControl_stylus_def DEFAULT_ACCESS_CONTROL_def)
  have 3: "requireAccessControl_stylus b t f (ABool False) p ro = Inr (b, t, f)"
    by (simp add: requireAccessControl_stylus_def DEFAULT_ACCESS_CONTROL_def setAccessControl_stylus_def)
  have 4: "requireAccessControl si c fn (ABool False) p ro =
     bind (setAccessControl si c (AStr ''ownable'')) (\<lambda>c1. Inr (addModifier ''onlyOwner'' fn c1))"
    by (simp only: requireAccessControl_false requireAccessControl_ownable)
  have 5: "\<forall>c'. requireAccessControl si c fn (ABool False) p ro = Inr c' \<longrightarrow>
      hasParent ''Ownable'' c' \<and> ''onlyOwner'' \<in> set (modifiersOf fn c')"
  proof (intro allI impI)
    fix c' assume "requireAccessControl si c fn (ABool False) p ro = Inr c'"
    with 4 have "bind (setAccessControl si c (AStr ''ownable''))
        (\<lambda>c1. Inr (addModifier ''onlyOwner'' fn c1)) = Inr c'" by simp
    then obtain c1 where s: "setAccessControl si c (AStr ''ownable'') = Inr c1"
      and c': "c' = addModifier ''onlyOwner'' fn c1"
      unfolding bind_eq_Inr by auto
    have "(AStr ''ownable'', ''Ownable'') \<in> {(AStr ''ownable'', ''Ownable''), (AStr ''roles'', ''AccessControl''),
      (AStr ''managed'', ''AccessManaged'')}" by (rule insertI1)
    from setAccessControl_hasParent [OF this s] have "hasParent ''Ownable'' c1" .
    then show "hasParent ''Ownable'' c' \<and> ''onlyOwner'' \<in> set (modifiersOf fn c')"
      by (simp add: c' modifiersOf_addModifier)
  qed
  have 6: "hasParent ''Ownable'' c \<or> findArgument ''initialOwner'' (constructorArgs c) = None \<longrightarrow>
      (\<exists>c'. requireAccessControl si c fn (ABool False) p ro = Inr c')"
    by (auto simp: 4 setAccessControl_ownable addConstructorArgument_def addArgument_def)
  from 1 2 3 4 5 6 show ?thesis by (intro conjI)
qed

text \<open>The statement on a new builder, for the function \<^verbatim>\<open>revokeAddressVerification\<close>.\<close>

theorem requireAccessControl_defaults_to_ownable_witness:
  "\<exists>c'. requireAccessControl sampleSupportsInterface (newBuilder ''MyContract'' False)
          functions_revokeAddressVerification (ABool False) ''DEFAULT_ADMIN_ROLE'' None = Inr c' \<and>
        hasParent ''Ownable'' c' \<and>
        ''onlyOwner'' \<in> set (modifiersOf functions_revokeAddressVerification c')"
proof -
  let ?b = "newBuilder ''MyContract'' False"
  note t = requireAccessControl_defaults_to_ownable [where si = sampleSupportsInterface and c = ?b
      and fn = functions_revokeAddressVerification and p = "''DEFAULT_ADMIN_ROLE''" and ro = None
      and b = ?b and t = "()" and f = "()"]
  have h: "hasParent ''Ownable'' ?b \<or> findArgument ''initialOwner'' (constructorArgs ?b) = None"
    by (simp add: newBuilder_def)
  note t5 = t [THEN conjunct2, THEN conjunct2, THEN conjunct2, THEN conjunct2, THEN conjunct1, rule_format]
  note t6 = t [THEN conjunct2, THEN conjunct2, THEN conjunct2, THEN conjunct2, THEN conjunct2, rule_format]
  from t6 [OF h] obtain c' where c': "requireAccessControl sampleSupportsInterface ?b
          functions_revokeAddressVerification (ABool False) ''DEFAULT_ADMIN_ROLE'' None = Inr c'"
    by (rule exE)
  from t5 [OF c'] c' show ?thesis by (intro exI [of _ c']) simp
qed

section \<open>Access values outside the variant set\<close>

text \<open>
  C4, as amended: for every access value outside the Stylus variant set, the Stylus
  \<^verbatim>\<open>setAccessControl\<close> and \<^verbatim>\<open>requireAccessControl\<close> fail with the error
  \<^verbatim>\<open>Unknown value for `access`\<close>; for every access value outside the Solidity variant
  set, the Solidity \<^verbatim>\<open>setAccessControl\<close> and \<^verbatim>\<open>requireAccessControl\<close> raise no error and
  return the builder unchanged (their \<^verbatim>\<open>switch\<close> statements have no default case).
\<close>

theorem unknown_access_value:
  "(access \<notin> set accessOptions_stylus \<longrightarrow>
      setAccessControl_stylus c access = Inl (JsError ''Unknown value for `access`'') \<and>
      requireAccessControl_stylus c trait f access roleIdPrefix roleOwner =
        Inl (JsError ''Unknown value for `access`'')) \<and>
   (access \<notin> set accessOptions \<longrightarrow>
      setAccessControl supportsInterface b access = Inr b \<and>
      requireAccessControl supportsInterface b fn access roleIdPrefix roleOwner = Inr b)"
  by (auto simp: accessOptions_stylus_def accessOptions_def setAccessControl_stylus_def
      requireAccessControl_stylus_def DEFAULT_ACCESS_CONTROL_def setAccessControl_def
      requireAccessControl_def)

text \<open>
  The claim as stated fails for the Solidity package: the value \<^verbatim>\<open>'admin'\<close> is outside
  its variant set, and both functions return the builder unchanged, without an error.
\<close>

theorem unknown_access_value_counterexample:
  "AStr ''admin'' \<notin> set accessOptions \<and>
   setAccessControl sampleSupportsInterface (newBuilder ''MyContract'' False) (AStr ''admin'') =
     Inr (newBuilder ''MyContract'' False) \<and>
   requireAccessControl sampleSupportsInterface (newBuilder ''MyContract'' False)
       functions_revokeAddressVerification (AStr ''admin'') ''DEFAULT_ADMIN_ROLE'' None =
     Inr (newBuilder ''MyContract'' False)"
  by (simp add: accessOptions_def setAccessControl_def requireAccessControl_def)

text \<open>
  The statement at \<^verbatim>\<open>'managed'\<close>, which is outside the Stylus variant set, and at
  \<^verbatim>\<open>true\<close>, which is outside the Solidity variant set.
\<close>

theorem unknown_access_value_witness:
  "AStr ''managed'' \<notin> set accessOptions_stylus \<and>
   setAccessControl_stylus (newBuilder ''MyContract'' False) (AStr ''managed'') =
     Inl (JsError ''Unknown value for `access`'') \<and>
   requireAccessControl_stylus (newBuilder ''MyContract'' False) ''MyTrait''
       functions_revokeAddressVerification (AStr ''managed'') ''DEFAULT_ADMIN_ROLE'' None =
     Inl (JsError ''Unknown value for `access`'') \<and>
   ABool True \<notin> set accessOptions \<and>
   setAccessControl sampleSupportsInterface (newBuilder ''MyContract'' False) (ABool True) =
     Inr (newBuilder ''MyContract'' False) \<and>
   requireAccessControl sampleSupportsInterface (newBuilder ''MyContract'' False)
       functions_revokeAddressVerification (ABool True) ''DEFAULT_ADMIN_ROLE'' None =
     Inr (newBuilder ''MyContract'' False)"
proof -
  have h1: "AStr ''managed'' \<notin> set accessOptions_stylus"
    by (simp add: accessOptions_stylus_def)
  have h2: "ABool True \<notin> set accessOptions"
    by (simp add: accessOptions_def)
  from unknown_access_value [where access = "AStr ''managed''" and c = "newBuilder ''MyContract'' False"
      and trait = "''MyTrait''" and f = functions_revokeAddressVerification
      and roleIdPrefix = "''DEFAULT_ADMIN_ROLE''" and roleOwner = None
      and supportsInterface = sampleSupportsInterface and b = "newBuilder ''MyContract'' False"
      and fn = functions_revokeAddressVerification]
    unknown_access_value [where access = "ABool True" and c = "newBuilder ''MyContract'' False"
      and trait = "''MyTrait''" and f = functions_revokeAddressVerification
      and roleIdPrefix = "''DEFAULT_ADMIN_ROLE''" and roleOwner = None
      and supportsInterface = sampleSupportsInterface and b = "newBuilder ''MyContract'' False"
      and fn = functions_revokeAddressVerification]
    h1 h2
  show ?thesis by simp
qed

section \<open>Order of the constructor statements\<close>

text \<open>
  C5: constructor body statements are appended in call order and emitted in that
  order: after any sequence of \<^verbatim>\<open>addConstructorCode\<close> calls the emitted body is the
  previous body followed by the statements in call order. In particular, when
  \<^verbatim>\<open>setAccessControl\<close> in the mode \<^verbatim>\<open>'roles'\<close> newly adds the AccessControl parent, the
  body ends with the zero-address check of \<^verbatim>\<open>defaultAdmin\<close> followed by the
  \<^verbatim>\<open>_grantRole\<close> statement: the check stands strictly before the grant.
\<close>

theorem constructor_statements_in_call_order:
  "emitConstructorBody (foldl (\<lambda>b s. addConstructorCode s b) c stmts) = emitConstructorBody c @ stmts \<and>
   (\<not> hasParent ''AccessControl'' c \<and> setAccessControl si c (AStr ''roles'') = Inr c' \<longrightarrow>
      emitConstructorBody c' = emitConstructorBody c @
        [''require(defaultAdmin != address(0), \"AccessControl: default admin is zero address\");'',
         ''_grantRole(DEFAULT_ADMIN_ROLE, defaultAdmin);''])"
  unfolding emitConstructorBody_def
  using constructorCode_foldl [of c stmts] setAccessControl_roles_code [of c si c']
  by blast

text \<open>The statement on a builder whose constructor body holds one statement already.\<close>

theorem constructor_statements_in_call_order_witness:
  "\<exists>c'. \<not> hasParent ''AccessControl'' (addConstructorCode ''counter = 0;'' (newBuilder ''MyContract'' False)) \<and>
      setAccessControl sampleSupportsInterface
        (addConstructorCode ''counter = 0;'' (newBuilder ''MyContract'' False)) (AStr ''roles'') = Inr c' \<and>
      emitConstructorBody c' =
        [''counter = 0;'',
         ''require(defaultAdmin != address(0), \"AccessControl: default admin is zero address\");'',
         ''_grantRole(DEFAULT_ADMIN_ROLE, defaultAdmin);'']"
proof -
  let ?b = "addConstructorCode ''counter = 0;'' (newBuilder ''MyContract'' False)"
  have h: "\<not> hasParent ''AccessControl'' ?b"
    by (simp add: hasParent_def newBuilder_def)
  have "\<exists>c'. setAccessControl sampleSupportsInterface ?b (AStr ''roles'') = Inr c'"
    by (simp add: setAccessControl_roles hasParent_def newBuilder_def addConstructorArgument_def
        addArgument_def addConstructorCode_def)
  then obtain c' where s: "setAccessControl sampleSupportsInterface ?b (AStr ''roles'') = Inr c'"
    by (rule exE)
  note t = constructor_statements_in_call_order [where c = ?b and si = sampleSupportsInterface and c' = c'
      and stmts = "[]", THEN conjunct2, rule_format, OF conjI, OF h s]
  have e: "emitConstructorBody ?b = [''counter = 0;'']"
    by (simp add: emitConstructorBody_def newBuilder_def)
  from h s t e show ?thesis by (intro exI [of _ c']) simp
qed

section \<open>The two versions of the address-verification feature\<close>

text \<open>
  C7: the two versions of \<^verbatim>\<open>addAddressVerification\<close> in the source are not
  observationally equivalent. Whenever the freeform version succeeds, it has appended
  its five text blocks to the declarations, and the structured version does not give
  the same builder on the same input. The freeform version also passes by the
  Symbol Registry: on a builder in which the event \<^verbatim>\<open>AddressVerified\<close> is registered
  with other doc lines, the structured version fails with SymbolConflict while the
  freeform version succeeds.
\<close>

theorem structured_and_freeform_differ:
  "(addAddressVerification_freeform si c a = Inr c' \<longrightarrow>
      variables c' = variables c @ freeformBlocks \<and>
      addAddressVerification t si c a \<noteq> addAddressVerification_freeform si c a) \<and>
   addAddressVerification t si conflictingBuilder (ABool False) =
     Inl (SymbolConflict ''event AddressVerified(address indexed account);''
            (DefinitionPayload [''/// @dev Emitted once per verified account''])
            (DefinitionPayload [''/// @dev Emitted when an address is verified''])) \<and>
   (\<exists>cf. addAddressVerification_freeform si conflictingBuilder (ABool False) = Inr cf)"
proof -
  have 1: "addAddressVerification_freeform si c a = Inr c' \<longrightarrow>
      variables c' = variables c @ freeformBlocks \<and>
      addAddressVerification t si c a \<noteq> addAddressVerification_freeform si c a"
  proof
    assume f: "addAddressVerification_freeform si c a = Inr c'"
    have v: "variables c' = variables c @ freeformBlocks"
      using f by (rule addAddressVerification_freeform_variables)
    have "addAddressVerification t si c a \<noteq> Inr c'"
    proof
      assume "addAddressVerification t si c a = Inr c'"
      from addAddressVerification_variables [OF this] v show False
        by (simp add: freeformBlocks_length)
    qed
    with f v show "variables c' = variables c @ freeformBlocks \<and>
      addAddressVerification t si c a \<noteq> addAddressVerification_freeform si c a"
      by simp
  qed
  note 2 = conflictingBuilder_structured [of t si "ABool False"]
  note 3 = conflictingBuilder_freeform [of si]
  from 1 2 3 show ?thesis by (intro conjI)
qed

text \<open>The statement on a new builder without access control.\<close>

theorem structured_and_freeform_differ_witness:
  "\<exists>cf. addAddressVerification_freeform sampleSupportsInterface
           (newBuilder ''MyContract'' False) (ABool False) = Inr cf \<and>
         variables cf = freeformBlocks \<and>
         addAddressVerification sampleStorageStructInstantiation sampleSupportsInterface
           (newBuilder ''MyContract'' False) (ABool False) \<noteq> Inr cf"
proof -
  let ?b = "newBuilder ''MyContract'' False"
  obtain cf where cf: "addAddressVerification_freeform sampleSupportsInterface ?b (ABool False) = Inr cf"
    using not_isl_Inr [OF eval_freeform_plain] by (rule exE)
  note t = structured_and_freeform_differ [where t = sampleStorageStructInstantiation
      and si = sampleSupportsInterface and c = ?b and a = "ABool False" and c' = cf,
      THEN conjunct1, rule_format, OF cf]
  from cf t show ?thesis by (intro exI [of _ cf]) simp
qed

section \<open>Zero-address checks in the constructor\<close>

text \<open>
  C8: whenever \<^verbatim>\<open>setAccessControl\<close> newly adds the parent of the mode \<^verbatim>\<open>'ownable'\<close>,
  \<^verbatim>\<open>'roles'\<close> or \<^verbatim>\<open>'managed'\<close>, the parent is present afterwards and the constructor
  body is extended by the statement requiring \<^verbatim>\<open>initialOwner\<close>, \<^verbatim>\<open>defaultAdmin\<close> or
  \<^verbatim>\<open>initialAuthority\<close> to be non-zero (followed, for \<^verbatim>\<open>'roles'\<close>, by the grant of the
  admin role). Likewise, when \<^verbatim>\<open>requireAccessControl\<close> in the mode \<^verbatim>\<open>'roles'\<close> is given a
  role owner and the role constant is newly added, the constructor body is extended
  by the zero-address check of the role owner followed by the grant of the role.
\<close>

theorem zero_address_checks:
  "(\<not> hasParent ''Ownable'' c \<and> setAccessControl si c (AStr ''ownable'') = Inr c' \<longrightarrow>
      hasParent ''Ownable'' c' \<and>
      constructorCode c' = constructorCode c @
        [''require(initialOwner != address(0), \"Ownable: initial owner is zero address\");'']) \<and>
   (\<not> hasParent ''AccessControl'' c \<and> setAccessControl si c (AStr ''roles'') = Inr c' \<longrightarrow>
      hasParent ''AccessControl'' c' \<and>
      constructorCode c' = constructorCode c @
        [''require(defaultAdmin != address(0), \"AccessControl: default admin is zero address\");'',
         ''_grantRole(DEFAULT_ADMIN_ROLE, defaultAdmin);'']) \<and>
   (\<not> hasParent ''AccessManaged'' c \<and> setAccessControl si c (AStr ''managed'') = Inr c' \<longrightarrow>
      hasParent ''AccessManaged'' c' \<and>
      constructorCode c' = constructorCode c @
        [''require(initialAuthority != address(0), \"AccessManaged: initial authority is zero address\");'']) \<and>
   (roleOwner \<noteq> [] \<and>
    setAccessControl si c (AStr ''roles'') = Inr cs \<and>
    map_of (symbols cs)
      (ConstantSymbol, ''bytes32 public constant '' @ roleIdPrefix @ ''_ROLE = keccak256(\"'' @
         roleIdPrefix @ ''_ROLE\");'') = None \<and>
    requireAccessControl si c fn (AStr ''roles'') roleIdPrefix (Some roleOwner) = Inr cq \<longrightarrow>
      constructorCode cq = constructorCode cs @
        [''require('' @ roleOwner @ '' != address(0), \"AccessControl: role owner is zero address\");'',
         ''_grantRole('' @ roleIdPrefix @ ''_ROLE, '' @ roleOwner @ '');''])"
proof -
  have mp1: "(AStr ''ownable'', ''Ownable'') \<in> {(AStr ''ownable'', ''Ownable''), (AStr ''roles'', ''AccessControl''),
      (AStr ''managed'', ''AccessManaged'')}" by (rule insertI1)
  have mp2: "(AStr ''roles'', ''AccessControl'') \<in> {(AStr ''ownable'', ''Ownable''), (AStr ''roles'', ''AccessControl''),
      (AStr ''managed'', ''AccessManaged'')}" by (rule insertI2, rule insertI1)
  have mp3: "(AStr ''managed'', ''AccessManaged'') \<in> {(AStr ''ownable'', ''Ownable''), (AStr ''roles'', ''AccessControl''),
      (AStr ''managed'', ''AccessManaged'')}" by (rule insertI2, rule insertI2, rule insertI1)
  have 1: "\<not> hasParent ''Ownable'' c \<and> setAccessControl si c (AStr ''ownable'') = Inr c' \<longrightarrow>
      hasParent ''Ownable'' c' \<and>
      constructorCode c' = constructorCode c @
        [''require(initialOwner != address(0), \"Ownable: initial owner is zero address\");'']"
    using setAccessControl_hasParent [OF mp1, of si c c'] setAccessControl_ownable_code [of c si c']
    by blast
  have 2: "\<not> hasParent ''AccessControl'' c \<and> setAccessControl si c (AStr ''roles'') = Inr c' \<longrightarrow>
      hasParent ''AccessControl'' c' \<and>
      constructorCode c' = constructorCode c @
        [''require(defaultAdmin != address(0), \"AccessControl: default admin is zero address\");'',
         ''_grantRole(DEFAULT_ADMIN_ROLE, defaultAdmin);'']"
    using setAccessControl_hasParent [OF mp2, of si c c'] setAccessControl_roles_code [of c si c']
    by blast
  have 3: "\<not> hasParent ''AccessManaged'' c \<and> setAccessControl si c (AStr ''managed'') = Inr c' \<longrightarrow>
      hasParent ''AccessManaged'' c' \<and>
      constructorCode c' = constructorCode c @
        [''require(initialAuthority != address(0), \"AccessManaged: initial authority is zero address\");'']"
    using setAccessControl_hasParent [OF mp3, of si c c'] setAccessControl_managed_code [of c si c']
    by blast
  have 4: "roleOwner \<noteq> [] \<and>
    setAccessControl si c (AStr ''roles'') = Inr cs \<and>
    map_of (symbols cs)
      (ConstantSymbol, ''bytes32 public constant '' @ roleIdPrefix @ ''_ROLE = keccak256(\"'' @
         roleIdPrefix @ ''_ROLE\");'') = None \<and>
    requireAccessControl si c fn (AStr ''roles'') roleIdPrefix (Some roleOwner) = Inr cq \<longrightarrow>
      constructorCode cq = constructorCode cs @
        [''require('' @ roleOwner @ '' != address(0), \"AccessControl: role owner is zero address\");'',
         ''_grantRole('' @ roleIdPrefix @ ''_ROLE, '' @ roleOwner @ '');'']"
    by (auto simp: requireAccessControl_roles addDefinition_cases bind_eq_Inr addConstructorArgument_def
        dest!: addArgument_frame)
  from 1 2 3 4 show ?thesis by (intro conjI)
qed

text \<open>
  The statement on a new builder: each mode adds its check, and a role owner
  \<^verbatim>\<open>minter\<close> for the prefix \<^verbatim>\<open>MINTER\<close> adds the check of \<^verbatim>\<open>minter\<close> before the grant.
\<close>

theorem zero_address_checks_witness:
  "\<exists>co cr cm c2.
     setAccessControl sampleSupportsInterface (newBuilder ''MyContract'' False) (AStr ''ownable'') = Inr co \<and>
     hasParent ''Ownable'' co \<and>
     constructorCode co =
       [''require(initialOwner != address(0), \"Ownable: initial owner is zero address\");''] \<and>
     setAccessControl sampleSupportsInterface (newBuilder ''MyContract'' False) (AStr ''roles'') = Inr cr \<and>
     hasParent ''AccessControl'' cr \<and>
     constructorCode cr =
       [''require(defaultAdmin != address(0), \"AccessControl: default admin is zero address\");'',
        ''_grantRole(DEFAULT_ADMIN_ROLE, defaultAdmin);''] \<and>
     setAccessControl sampleSupportsInterface (newBuilder ''MyContract'' False) (AStr ''managed'') = Inr cm \<and>
     hasParent ''AccessManaged'' cm \<and>
     constructorCode cm =
       [''require(initialAuthority != address(0), \"AccessManaged: initial authority is zero address\");''] \<and>
     requireAccessControl sampleSupportsInterface (newBuilder ''MyContract'' False)
       functions_revokeAddressVerification (AStr ''roles'') ''MINTER'' (Some ''minter'') = Inr c2 \<and>
     constructorCode c2 =
       [''require(defaultAdmin != address(0), \"AccessControl: default admin is zero address\");'',
        ''_grantRole(DEFAULT_ADMIN_ROLE, defaultAdmin);'',
        ''require(minter != address(0), \"AccessControl: role owner is zero address\");'',
        ''_grantRole(MINTER_ROLE, minter);'']"
proof -
  let ?b = "newBuilder ''MyContract'' False"
  let ?si = sampleSupportsInterface
  obtain co where co: "setAccessControl ?si ?b (AStr ''ownable'') = Inr co"
    using newBuilder_succeeds(1) by (rule exE)
  obtain cr where cr: "setAccessControl ?si ?b (AStr ''roles'') = Inr cr"
    using newBuilder_succeeds(2) by (rule exE)
  obtain cm where cm: "setAccessControl ?si ?b (AStr ''managed'') = Inr cm"
    using newBuilder_succeeds(3) by (rule exE)
  have sym: "symbols cr = []"
    using setAccessControl_frame [OF cr] by simp
  have "\<exists>c2. requireAccessControl ?si ?b functions_revokeAddressVerification (AStr ''roles'') ''MINTER''
          (Some ''minter'') = Inr c2"
    using cr sym setAccessControl_roles_code [OF newBuilder_no_parent cr]
    by (auto simp: requireAccessControl_roles addDefinition_cases addConstructorArgument_def addArgument_def
        setAccessControl_roles hasParent_def bind_eq_Inr split: option.splits)
  then obtain c2 where c2: "requireAccessControl ?si ?b functions_revokeAddressVerification (AStr ''roles'')
          ''MINTER'' (Some ''minter'') = Inr c2"
    by (rule exE)
  note n = newBuilder_no_parent [of _ "''MyContract''" False]
  note t1 = zero_address_checks [where c = ?b and si = ?si and c' = co,
      THEN conjunct1, rule_format, OF conjI, OF n co]
  note t2 = zero_address_checks [where c = ?b and si = ?si and c' = cr,
      THEN conjunct2, THEN conjunct1, rule_format, OF conjI, OF n cr]
  note t3 = zero_address_checks [where c = ?b and si = ?si and c' = cm,
      THEN conjunct2, THEN conjunct2, THEN conjunct1, rule_format, OF conjI, OF n cm]
  have ro: "''minter'' \<noteq> []" by simp
  have free: "map_of (symbols cr)
      (ConstantSymbol, ''bytes32 public constant '' @ ''MINTER'' @ ''_ROLE = keccak256(\"'' @
         ''MINTER'' @ ''_ROLE\");'') = None"
    by (simp add: sym)
  note t4 = zero_address_checks [where c = ?b and si = ?si and cs = cr and cq = c2
      and roleOwner = "''minter''" and roleIdPrefix = "''MINTER''" and fn = functions_revokeAddressVerification,
      THEN conjunct2, THEN conjunct2, THEN conjunct2, rule_format, OF conjI, OF ro conjI, OF cr conjI, OF free c2]
  from co cr cm c2 t1 t2 t3 t4 show ?thesis
    by (intro exI [of _ co] exI [of _ cr] exI [of _ cm] exI [of _ c2]) simp
qed

section \<open>Stylus access control changes nothing\<close>

text \<open>
  C9: for every access value of the Stylus variant set (\<^verbatim>\<open>false\<close>, \<^verbatim>\<open>'ownable'\<close>,
  \<^verbatim>\<open>'roles'\<close>), the Stylus \<^verbatim>\<open>setAccessControl\<close> and \<^verbatim>\<open>requireAccessControl\<close> return
  without an error and leave the builder, the trait and the target function as they
  were: nothing is added.
\<close>

theorem stylus_access_control_is_noop:
  "access \<in> set accessOptions_stylus \<Longrightarrow>
     setAccessControl_stylus c access = Inr c \<and>
     requireAccessControl_stylus c trait fn access roleIdPrefix roleOwner = Inr (c, trait, fn)"
  by (auto simp: accessOptions_stylus_def setAccessControl_stylus_def
      requireAccessControl_stylus_def DEFAULT_ACCESS_CONTROL_def)

text \<open>The statement at \<^verbatim>\<open>'roles'\<close> on a new builder.\<close>

theorem stylus_access_control_is_noop_witness:
  "AStr ''roles'' \<in> set accessOptions_stylus \<and>
   setAccessControl_stylus (newBuilder ''MyContract'' False) (AStr ''roles'') =
     Inr (newBuilder ''MyContract'' False) \<and>
   requireAccessControl_stylus (newBuilder ''MyContract'' False) ''MyTrait''
       functions_revokeAddressVerification (AStr ''roles'') ''DEFAULT_ADMIN_ROLE'' None =
     Inr (newBuilder ''MyContract'' False, ''MyTrait'', functions_revokeAddressVerification)"
proof -
  have h: "AStr ''roles'' \<in> set accessOptions_stylus"
    by (simp add: accessOptions_stylus_def)
  from stylus_access_control_is_noop [OF h] h show ?thesis by simp
qed

section \<open>The guard of revokeAddressVerification\<close>

text \<open>
  C10: when \<^verbatim>\<open>addAddressVerification\<close> (either version in the source) is called with
  \<^verbatim>\<open>access = 'roles'\<close> and succeeds, the modifiers of \<^verbatim>\<open>revokeAddressVerification\<close> are
  the previous ones with \<^verbatim>\<open>onlyRole(DEFAULT_ADMIN_ROLE_ROLE)\<close> appended (if it was not
  there), and the constant
  \<^verbatim>\<open>bytes32 public constant DEFAULT_ADMIN_ROLE_ROLE = keccak256("DEFAULT_ADMIN_ROLE_ROLE");\<close>
  is registered: the role id is the passed prefix \<^verbatim>\<open>DEFAULT_ADMIN_ROLE\<close> followed by
  \<^verbatim>\<open>_ROLE\<close>. The guard \<^verbatim>\<open>onlyRole(DEFAULT_ADMIN_ROLE)\<close> of the inherited role is not
  added: it is among the modifiers afterwards only if it was before. The function's
  notice reads \<^verbatim>\<open>Revoke address verification (admin only)\<close>.
\<close>

theorem revoke_guarded_by_derived_role:
  "(addAddressVerification t si c (AStr ''roles'') = Inr c' \<longrightarrow>
      modifiersOf functions_revokeAddressVerification c' =
        (if ''onlyRole(DEFAULT_ADMIN_ROLE_ROLE)'' \<in> set (modifiersOf functions_revokeAddressVerification c)
         then modifiersOf functions_revokeAddressVerification c
         else modifiersOf functions_revokeAddressVerification c @ [''onlyRole(DEFAULT_ADMIN_ROLE_ROLE)'']) \<and>
      (''onlyRole(DEFAULT_ADMIN_ROLE)'' \<in> set (modifiersOf functions_revokeAddressVerification c') \<longleftrightarrow>
       ''onlyRole(DEFAULT_ADMIN_ROLE)'' \<in> set (modifiersOf functions_revokeAddressVerification c)) \<and>
      map_of (symbols c')
        (ConstantSymbol,
         ''bytes32 public constant DEFAULT_ADMIN_ROLE_ROLE = keccak256(\"DEFAULT_ADMIN_ROLE_ROLE\");'') =
        Some (DefinitionPayload [])) \<and>
   (addAddressVerification_freeform si c (AStr ''roles'') = Inr c' \<longrightarrow>
      modifiersOf freeform_revokeAddressVerification c' =
        (if ''onlyRole(DEFAULT_ADMIN_ROLE_ROLE)'' \<in> set (modifiersOf freeform_revokeAddressVerification c)
         then modifiersOf freeform_revokeAddressVerification c
         else modifiersOf freeform_revokeAddressVerification c @ [''onlyRole(DEFAULT_ADMIN_ROLE_ROLE)'']) \<and>
      (''onlyRole(DEFAULT_ADMIN_ROLE)'' \<in> set (modifiersOf freeform_revokeAddressVerification c') \<longleftrightarrow>
       ''onlyRole(DEFAULT_ADMIN_ROLE)'' \<in> set (modifiersOf freeform_revokeAddressVerification c)) \<and>
      map_of (symbols c')
        (ConstantSymbol,
         ''bytes32 public constant DEFAULT_ADMIN_ROLE_ROLE = keccak256(\"DEFAULT_ADMIN_ROLE_ROLE\");'') =
        Some (DefinitionPayload [])) \<and>
   ''DEFAULT_ADMIN_ROLE'' @ ''_ROLE'' = ''DEFAULT_ADMIN_ROLE_ROLE'' \<and>
   notice (fn_docs functions_revokeAddressVerification) = ''Revoke address verification (admin only)'' \<and>
   notice (fn_docs freeform_revokeAddressVerification) = ''Revoke address verification (admin only)''"
proof -
  have 1: "addAddressVerification t si c (AStr ''roles'') = Inr c' \<longrightarrow>
      modifiersOf functions_revokeAddressVerification c' =
        (if ''onlyRole(DEFAULT_ADMIN_ROLE_ROLE)'' \<in> set (modifiersOf functions_revokeAddressVerification c)
         then modifiersOf functions_revokeAddressVerification c
         else modifiersOf functions_revokeAddressVerification c @ [''onlyRole(DEFAULT_ADMIN_ROLE_ROLE)'']) \<and>
      (''onlyRole(DEFAULT_ADMIN_ROLE)'' \<in> set (modifiersOf functions_revokeAddressVerification c') \<longleftrightarrow>
       ''onlyRole(DEFAULT_ADMIN_ROLE)'' \<in> set (modifiersOf functions_revokeAddressVerification c)) \<and>
      map_of (symbols c')
        (ConstantSymbol,
         ''bytes32 public constant DEFAULT_ADMIN_ROLE_ROLE = keccak256(\"DEFAULT_ADMIN_ROLE_ROLE\");'') =
        Some (DefinitionPayload [])"
  proof
    assume "addAddressVerification t si c (AStr ''roles'') = Inr c'"
    from addAddressVerification_roles_result [OF this] show
      "modifiersOf functions_revokeAddressVerification c' =
        (if ''onlyRole(DEFAULT_ADMIN_ROLE_ROLE)'' \<in> set (modifiersOf functions_revokeAddressVerification c)
         then modifiersOf functions_revokeAddressVerification c
         else modifiersOf functions_revokeAddressVerification c @ [''onlyRole(DEFAULT_ADMIN_ROLE_ROLE)'']) \<and>
      (''onlyRole(DEFAULT_ADMIN_ROLE)'' \<in> set (modifiersOf functions_revokeAddressVerification c') \<longleftrightarrow>
       ''onlyRole(DEFAULT_ADMIN_ROLE)'' \<in> set (modifiersOf functions_revokeAddressVerification c)) \<and>
      map_of (symbols c')
        (ConstantSymbol,
         ''bytes32 public constant DEFAULT_ADMIN_ROLE_ROLE = keccak256(\"DEFAULT_ADMIN_ROLE_ROLE\");'') =
        Some (DefinitionPayload [])"
      by simp
  qed
  have 2: "addAddressVerification_freeform si c (AStr ''roles'') = Inr c' \<longrightarrow>
      modifiersOf freeform_revokeAddressVerification c' =
        (if ''onlyRole(DEFAULT_ADMIN_ROLE_ROLE)'' \<in> set (modifiersOf freeform_revokeAddressVerification c)
         then modifiersOf freeform_revokeAddressVerification c
         else modifiersOf freeform_revokeAddressVerification c @ [''onlyRole(DEFAULT_ADMIN_ROLE_ROLE)'']) \<and>
      (''onlyRole(DEFAULT_ADMIN_ROLE)'' \<in> set (modifiersOf freeform_revokeAddressVerification c') \<longleftrightarrow>
       ''onlyRole(DEFAULT_ADMIN_ROLE)'' \<in> set (modifiersOf freeform_revokeAddressVerification c)) \<and>
      map_of (symbols c')
        (ConstantSymbol,
         ''bytes32 public constant DEFAULT_ADMIN_ROLE_ROLE = keccak256(\"DEFAULT_ADMIN_ROLE_ROLE\");'') =
        Some (DefinitionPayload [])"
  proof
    assume "addAddressVerification_freeform si c (AStr ''roles'') = Inr c'"
    from addAddressVerification_freeform_roles_result [OF this] show
      "modifiersOf freeform_revokeAddressVerification c' =
        (if ''onlyRole(DEFAULT_ADMIN_ROLE_ROLE)'' \<in> set (modifiersOf freeform_revokeAddressVerification c)
         then modifiersOf freeform_revokeAddressVerification c
         else modifiersOf freeform_revokeAddressVerification c @ [''onlyRole(DEFAULT_ADMIN_ROLE_ROLE)'']) \<and>
      (''onlyRole(DEFAULT_ADMIN_ROLE)'' \<in> set (modifiersOf freeform_revokeAddressVerification c') \<longleftrightarrow>
       ''onlyRole(DEFAULT_ADMIN_ROLE)'' \<in> set (modifiersOf freeform_revokeAddressVerification c)) \<and>
      map_of (symbols c')
        (ConstantSymbol,
         ''bytes32 public constant DEFAULT_ADMIN_ROLE_ROLE = keccak256(\"DEFAULT_ADMIN_ROLE_ROLE\");'') =
        Some (DefinitionPayload [])"
      by simp
  qed
  have 3: "''DEFAULT_ADMIN_ROLE'' @ ''_ROLE'' = ''DEFAULT_ADMIN_ROLE_ROLE''" by simp
  have 4: "notice (fn_docs functions_revokeAddressVerification) = ''Revoke address verification (admin only)''"
    by (simp add: functions_revokeAddressVerification_def)
  have 5: "notice (fn_docs freeform_revokeAddressVerification) = ''Revoke address verification (admin only)''"
    by (simp add: freeform_revokeAddressVerification_def)
  from 1 2 3 4 5 show ?thesis by (intro conjI)
qed

text \<open>The statement on a new builder, for both versions.\<close>

theorem revoke_guarded_by_derived_role_witness:
  "\<exists>cs cf.
     addAddressVerification sampleStorageStructInstantiation sampleSupportsInterface
       (newBuilder ''MyContract'' False) (AStr ''roles'') = Inr cs \<and>
     modifiersOf functions_revokeAddressVerification cs = [''onlyRole(DEFAULT_ADMIN_ROLE_ROLE)''] \<and>
     map_of (symbols cs)
        (ConstantSymbol,
         ''bytes32 public constant DEFAULT_ADMIN_ROLE_ROLE = keccak256(\"DEFAULT_ADMIN_ROLE_ROLE\");'') =
        Some (DefinitionPayload []) \<and>
     addAddressVerification_freeform sampleSupportsInterface
       (newBuilder ''MyContract'' False) (AStr ''roles'') = Inr cf \<and>
     modifiersOf freeform_revokeAddressVerification cf = [''onlyRole(DEFAULT_ADMIN_ROLE_ROLE)''] \<and>
     map_of (symbols cf)
        (ConstantSymbol,
         ''bytes32 public constant DEFAULT_ADMIN_ROLE_ROLE = keccak256(\"DEFAULT_ADMIN_ROLE_ROLE\");'') =
        Some (DefinitionPayload [])"
proof -
  let ?b = "newBuilder ''MyContract'' False"
  obtain cs where cs: "addAddressVerification sampleStorageStructInstantiation sampleSupportsInterface
       ?b (AStr ''roles'') = Inr cs"
    using not_isl_Inr [OF eval_structured_roles] by (rule exE)
  obtain cf where cf: "addAddressVerification_freeform sampleSupportsInterface ?b (AStr ''roles'') = Inr cf"
    using not_isl_Inr [OF eval_freeform_roles] by (rule exE)
  note t1 = revoke_guarded_by_derived_role [where t = sampleStorageStructInstantiation
      and si = sampleSupportsInterface and c = ?b and c' = cs, THEN conjunct1, rule_format, OF cs]
  note t2 = revoke_guarded_by_derived_role [where t = sampleStorageStructInstantiation
      and si = sampleSupportsInterface and c = ?b and c' = cf, THEN conjunct2, THEN conjunct1, rule_format, OF cf]
  from cs cf t1 t2 show ?thesis
    by (intro exI [of _ cs] exI [of _ cf]) simp
qed

end
